theory Spec2Isabelle
  imports Complex_Main
begin

section \<open>Errors and tensors\<close>

text \<open>
  The canonizers of \<^verbatim>\<open>zennit/canonizers.py\<close> rewrite the parameters of torch modules.
  Tensors are nested lists of reals (floating point is idealised as real arithmetic); every
  raise of the source is a value \<open>Inl e\<close>.
\<close>

datatype error =
    ShapeError
  | AttributeError string
  | NameError string
  | KeyError string
  | TypeError
  | IndexError

type_synonym vec = "real list"
type_synonym tensor4 = "real list list list list"

text \<open>A parameter tensor of any rank.\<close>

datatype tensor = Sc real | Tn "tensor list"

fun tscale :: "real \<Rightarrow> tensor \<Rightarrow> tensor" where
  "tscale s (Sc r) = Sc (r * s)"
| "tscale s (Tn ts) = Tn (map (tscale s) ts)"

fun tsum :: "tensor \<Rightarrow> real" where
  "tsum (Sc r) = r"
| "tsum (Tn ts) = sum_list (map tsum ts)"

text \<open>\<^verbatim>\<open>torch.ones_like\<close> and \<^verbatim>\<open>torch.zeros_like\<close>: a constant tensor of the same shape.\<close>

fun tconst :: "real \<Rightarrow> tensor \<Rightarrow> tensor" where
  "tconst c (Sc r) = Sc c"
| "tconst c (Tn ts) = Tn (map (tconst c) ts)"

fun el :: "tensor \<Rightarrow> nat list \<Rightarrow> real" where
  "el (Sc r) [] = r"
| "el (Tn ts) (i # js) = (if i < length ts then el (ts ! i) js else 0)"
| "el _ _ = 0"

fun shape :: "tensor \<Rightarrow> nat list" where
  "shape (Sc r) = []"
| "shape (Tn []) = [0]"
| "shape (Tn (t # ts)) = Suc (length ts) # shape t"


text \<open>A one-dimensional tensor and the list of its elements.\<close>

fun is_scalar :: "tensor \<Rightarrow> bool" where
  "is_scalar (Sc r) = True"
| "is_scalar (Tn ts) = False"

definition vec_of :: "tensor \<Rightarrow> vec option" where
  "vec_of t =
     (case t of
        Sc r \<Rightarrow> None
      | Tn ts \<Rightarrow> if list_all is_scalar ts then Some (map tsum ts) else None)"

definition tensor_of :: "vec \<Rightarrow> tensor" where
  "tensor_of v = Tn (map Sc v)"

definition bindE :: "error + 'a \<Rightarrow> ('a \<Rightarrow> error + 'b) \<Rightarrow> error + 'b" where
  "bindE m f = (case m of Inl e \<Rightarrow> Inl e | Inr v \<Rightarrow> f v)"

fun traverse :: "('a \<Rightarrow> error + 'b) \<Rightarrow> 'a list \<Rightarrow> error + 'b list" where
  "traverse f [] = Inr []"
| "traverse f (x # xs) =
     (case f x of
        Inl e \<Rightarrow> Inl e
      | Inr y \<Rightarrow> (case traverse f xs of Inl e \<Rightarrow> Inl e | Inr ys \<Rightarrow> Inr (y # ys)))"

text \<open>
  Elementwise arithmetic on one-dimensional tensors with torch's broadcasting: equal
  lengths, or one operand of length 1; anything else is torch's shape error.
\<close>

definition bvec :: "(real \<Rightarrow> real \<Rightarrow> real) \<Rightarrow> vec \<Rightarrow> vec \<Rightarrow> error + vec" where
  "bvec f a b =
     (if length a = length b then Inr (map2 f a b)
      else if length a = 1 then Inr (map (f (hd a)) b)
      else if length b = 1 then Inr (map (\<lambda>x. f x (hd b)) a)
      else Inl ShapeError)"

text \<open>
  \<^verbatim>\<open>original_weight * scale[(slice(None), None, ..., None)]\<close> with one \<^verbatim>\<open>None\<close> for
  each further axis of the weight: the vector runs along axis 0 of the weight, all other
  axes broadcast.
\<close>

fun mul_axis0 :: "vec \<Rightarrow> tensor \<Rightarrow> error + tensor" where
  "mul_axis0 v (Sc r) = Inr (Tn (map (\<lambda>s. Sc (r * s)) v))"
| "mul_axis0 v (Tn ts) =
     (if length ts = length v then Inr (Tn (map2 (\<lambda>t s. tscale s t) ts v))
      else if length ts = 1 then Inr (Tn (map (\<lambda>s. tscale s (hd ts)) v))
      else if length v = 1 then Inr (Tn (map (tscale (hd v)) ts))
      else Inl ShapeError)"

text \<open>
  \<^verbatim>\<open>original_weight * scale[(None, slice(None), None, ..., None)]\<close>: the vector runs
  along axis 1. On a one-dimensional weight the index is \<^verbatim>\<open>(None, slice(None))\<close>, the
  indexed scale has shape \<open>[1, C]\<close> and so has the product.
\<close>

fun mul_axis1 :: "vec \<Rightarrow> tensor \<Rightarrow> error + tensor" where
  "mul_axis1 v (Sc r) = Inr (Tn [Tn (map (\<lambda>s. Sc (r * s)) v)])"
| "mul_axis1 v (Tn ts) =
     (if list_all is_scalar ts
      then (case mul_axis0 v (Tn ts) of Inl e \<Rightarrow> Inl e | Inr t \<Rightarrow> Inr (Tn [t]))
      else (case traverse (mul_axis0 v) ts of Inl e \<Rightarrow> Inl e | Inr ts' \<Rightarrow> Inr (Tn ts')))"

section \<open>Modules, hooks and the module store\<close>

text \<open>
  A batch norm with its affine parameters. The weight is a tensor, one-dimensional unless a
  canonizer that was handed the batch norm as a linear module has rewritten it.
\<close>

record batch_norm =
  bn_weight :: tensor
  bn_bias :: vec
  running_mean :: vec
  running_var :: vec
  eps :: real

text \<open>
  The linear kinds of \<^verbatim>\<open>zennit.types.Linear\<close>: \<^verbatim>\<open>torch.nn.Linear\<close>, the standard
  convolutions and the transposed convolutions, the latter two with their number of spatial
  axes. \<^verbatim>\<open>isinstance(m, torch.nn.Conv2d)\<close> is \<open>kind m = Conv 2\<close>,
  \<^verbatim>\<open>isinstance(m, ConvolutionTranspose)\<close> is \<open>kind m = ConvTranspose n\<close>.
\<close>

datatype lkind = FullyConnected | Conv nat | ConvTranspose nat

record linear =
  kind :: lkind
  weight :: tensor
  bias :: "vec option"
  stride :: "nat \<times> nat"
  padding :: "nat \<times> nat"

datatype body =
    LinearM linear
  | BatchNormM batch_norm
  | ReLUM
  | AdaptiveAvgPool2dM
  | OtherM

text \<open>Activations: a batch of feature vectors or a batch of feature maps.\<close>

datatype act = A2 "real list list" | A4 tensor4

text \<open>The dictionary \<^verbatim>\<open>canonization_params\<close> with the keys the source uses.\<close>

record params =
  bias_kernel :: "tensor4 option"
  weights :: "vec option"
  biases :: "vec option"
  original_x :: "act option"

definition empty_params :: params where
  "empty_params = \<lparr> bias_kernel = None, weights = None, biases = None, original_x = None \<rparr>"

text \<open>
  The attributes that canonizers add to a module at run time: the dictionary
  \<^verbatim>\<open>canonization_params\<close>, or any object an \<^verbatim>\<open>AttributeCanonizer\<close> sets (an opaque
  value here). Attributes that shadow the parameters and hyperparameters of \<open>body\<close> are
  outside the model.
\<close>

datatype attr_value = ParamsV params | ObjV nat

datatype hook = ConvHook | PreHook | FwdHook

record module =
  body :: body
  attrs :: "string \<Rightarrow> attr_value option"
  forward_pre_hooks :: "(nat \<times> hook) list"
  forward_hooks :: "(nat \<times> hook) list"

text \<open>
  Modules are objects: the store maps object identities to modules; \<open>next_handle\<close> is
  the counter torch's removable handles draw their keys from, \<open>next_obj\<close> the next
  identity a \<^verbatim>\<open>self.copy()\<close> allocates.
\<close>

record state =
  modules :: "nat \<Rightarrow> module"
  next_handle :: nat
  next_obj :: nat

datatype handle = Handle nat bool nat

definition upd_module :: "nat \<Rightarrow> (module \<Rightarrow> module) \<Rightarrow> state \<Rightarrow> state" where
  "upd_module i f s = s\<lparr> modules := (modules s)(i := f (modules s i)) \<rparr>"

definition set_body :: "nat \<Rightarrow> body \<Rightarrow> state \<Rightarrow> state" where
  "set_body i b = upd_module i (\<lambda>m. m\<lparr> body := b \<rparr>)"

text \<open>
  The canonizers read and write \<^verbatim>\<open>module.weight.data\<close> and \<^verbatim>\<open>module.bias\<close> of whatever
  module they are handed: a linear module has them, and so has a batch norm (whose bias is
  never \<^verbatim>\<open>None\<close>); the other modules raise \<^verbatim>\<open>AttributeError\<close>.
\<close>

definition weight_data :: "body \<Rightarrow> error + tensor" where
  "weight_data b =
     (case b of
        LinearM l \<Rightarrow> Inr (weight l)
      | BatchNormM bn \<Rightarrow> Inr (bn_weight bn)
      | _ \<Rightarrow> Inl (AttributeError ''weight''))"

definition bias_attr :: "body \<Rightarrow> error + vec option" where
  "bias_attr b =
     (case b of
        LinearM l \<Rightarrow> Inr (bias l)
      | BatchNormM bn \<Rightarrow> Inr (Some (bn_bias bn))
      | _ \<Rightarrow> Inl (AttributeError ''bias''))"

definition set_weight_data :: "tensor \<Rightarrow> body \<Rightarrow> body" where
  "set_weight_data t b =
     (case b of
        LinearM l \<Rightarrow> LinearM (l\<lparr> weight := t \<rparr>)
      | BatchNormM bn \<Rightarrow> BatchNormM (bn\<lparr> bn_weight := t \<rparr>)
      | _ \<Rightarrow> b)"

text \<open>\<^verbatim>\<open>module.bias.data = v\<close> on a module whose bias is not \<^verbatim>\<open>None\<close>.\<close>

definition set_bias_data :: "vec \<Rightarrow> body \<Rightarrow> body" where
  "set_bias_data v b =
     (case b of
        LinearM l \<Rightarrow> LinearM (l\<lparr> bias := Some v \<rparr>)
      | BatchNormM bn \<Rightarrow> BatchNormM (bn\<lparr> bn_bias := v \<rparr>)
      | _ \<Rightarrow> b)"

definition get_batch_norm :: "state \<Rightarrow> nat \<Rightarrow> error + batch_norm" where
  "get_batch_norm s i =
     (case body (modules s i) of
        BatchNormM b \<Rightarrow> Inr b
      | _ \<Rightarrow> Inl (AttributeError ''running_var''))"

definition is_linear :: "module \<Rightarrow> bool" where
  "is_linear m = (case body m of LinearM l \<Rightarrow> True | _ \<Rightarrow> False)"

definition is_batch_norm :: "module \<Rightarrow> bool" where
  "is_batch_norm m = (case body m of BatchNormM b \<Rightarrow> True | _ \<Rightarrow> False)"

text \<open>\<^verbatim>\<open>isinstance(module, ConvolutionTranspose)\<close>\<close>

definition is_transpose :: "body \<Rightarrow> bool" where
  "is_transpose b =
     (case b of
        LinearM l \<Rightarrow> (case kind l of ConvTranspose n \<Rightarrow> True | _ \<Rightarrow> False)
      | _ \<Rightarrow> False)"

section \<open>MergeBatchNorm: left fusion\<close>

text \<open>
  \<^verbatim>\<open>denominator = (running_var + eps) ** .5; scale = weight / denominator\<close>, for the
  one-dimensional weight of a batch norm (a weight of another rank, which only a canonizer
  that treated the batch norm as a linear module leaves behind, is not divided here).
\<close>

definition bn_scale :: "batch_norm \<Rightarrow> error + vec" where
  "bn_scale bn =
     (case vec_of (bn_weight bn) of
        None \<Rightarrow> Inl ShapeError
      | Some w \<Rightarrow> bvec (/) w (map (\<lambda>v. sqrt (v + eps bn)) (running_var bn)))"

text \<open>\<^verbatim>\<open>shift = bias - running_mean * scale\<close>\<close>

definition bn_shift :: "batch_norm \<Rightarrow> vec \<Rightarrow> error + vec" where
  "bn_shift bn scale = bindE (bvec (*) (running_mean bn) scale) (\<lambda>ms. bvec (-) (bn_bias bn) ms)"

text \<open>The batch norm after \<^verbatim>\<open># change batch_norm parameters to produce identity\<close>.\<close>

definition bn_identity :: "batch_norm \<Rightarrow> batch_norm" where
  "bn_identity bn =
     \<lparr> bn_weight = tconst 1 (bn_weight bn),
       bn_bias = map (\<lambda>_. 0) (bn_bias bn),
       running_mean = map (\<lambda>_. 0) (running_mean bn),
       running_var = map (\<lambda>_. 1) (running_var bn),
       eps = 0 \<rparr>"

text \<open>
  One iteration of the loop of \<^verbatim>\<open>MergeBatchNorm.merge_batch_norm\<close> on the module \<open>i\<close>,
  with the batch norm \<open>b\<close>. \<^verbatim>\<open>scale\<close> was computed before the loop;
  \<^verbatim>\<open>batch_norm.running_mean\<close> and \<^verbatim>\<open>batch_norm.bias\<close> are read from the batch norm as it
  is when the new bias is computed. The state is returned as far as it was mutated when an
  operation raises.
\<close>

definition merge_left_module :: "vec \<Rightarrow> nat \<Rightarrow> nat \<Rightarrow> state \<Rightarrow> (error + unit) \<times> state" where
  "merge_left_module scale b i s =
     (let m = body (modules s i)
      in case weight_data m of
           Inl e \<Rightarrow> (Inl e, s)
         | Inr original_weight \<Rightarrow>
             (case bias_attr m of
                Inl e \<Rightarrow> (Inl e, s)
              | Inr ba \<Rightarrow>
                  (let m1 = (case ba of None \<Rightarrow> set_bias_data [0] m | Some v \<Rightarrow> m);
                       s1 = set_body i m1 s;
                       original_bias = (case ba of None \<Rightarrow> [0] | Some v \<Rightarrow> v)
                   in case (if is_transpose m then mul_axis1 scale original_weight
                            else mul_axis0 scale original_weight) of
                        Inl e \<Rightarrow> (Inl e, s1)
                      | Inr w \<Rightarrow>
                          (let s2 = set_body i (set_weight_data w m1) s1
                           in case bindE (get_batch_norm s2 b) (\<lambda>bn.
                                     bindE (bvec (-) original_bias (running_mean bn)) (\<lambda>d.
                                       bindE (bvec (*) d scale) (\<lambda>ds. bvec (+) ds (bn_bias bn)))) of
                                Inl e \<Rightarrow> (Inl e, s2)
                              | Inr nb \<Rightarrow>
                                  (Inr (), set_body i (set_bias_data nb (body (modules s2 i))) s2)))))"

fun merge_left_loop :: "vec \<Rightarrow> nat \<Rightarrow> nat list \<Rightarrow> state \<Rightarrow> (error + unit) \<times> state" where
  "merge_left_loop scale b [] s = (Inr (), s)"
| "merge_left_loop scale b (i # is) s =
     (case merge_left_module scale b i s of
        (Inl e, s') \<Rightarrow> (Inl e, s')
      | (Inr u, s') \<Rightarrow> merge_left_loop scale b is s')"

definition merge_batch_norm :: "nat list \<Rightarrow> nat \<Rightarrow> state \<Rightarrow> (error + unit) \<times> state" where
  "merge_batch_norm ms b s =
     (case get_batch_norm s b of
        Inl e \<Rightarrow> (Inl e, s)
      | Inr bn \<Rightarrow>
          (case bn_scale bn of
             Inl e \<Rightarrow> (Inl e, s)
           | Inr scale \<Rightarrow>
               (case merge_left_loop scale b ms s of
                  (Inl e, s') \<Rightarrow> (Inl e, s')
                | (Inr u, s') \<Rightarrow>
                    (case get_batch_norm s' b of
                       Inl e \<Rightarrow> (Inl e, s')
                     | Inr bn' \<Rightarrow> (Inr (), set_body b (BatchNormM (bn_identity bn')) s')))))"

text \<open>
  A registered instance of one of the batch norm canonizers: the object identity, its class,
  the matched modules, the snapshot taken by \<^verbatim>\<open>register\<close> and the hook handles.
\<close>

datatype inst_class = CSequential | CNamed | CToRight | CThresh

record inst =
  inst_id :: nat
  inst_class :: inst_class
  linears :: "nat list"
  batch_norm_ref :: nat
  batch_norm_eps :: real
  linear_params :: "(tensor \<times> vec option) list"
  batch_norm_params :: batch_norm
  handles :: "handle list"
  relu :: "nat option"

text \<open>
  \<^verbatim>\<open>(linear.weight.data, getattr(linear.bias, 'data', None))\<close> of one module, and the
  snapshot of \<^verbatim>\<open>register\<close>: the linear parameters first, then the batch norm's.
\<close>

definition linear_param :: "state \<Rightarrow> nat \<Rightarrow> error + tensor \<times> vec option" where
  "linear_param s i =
     bindE (weight_data (body (modules s i))) (\<lambda>w.
       map_sum id (Pair w) (bias_attr (body (modules s i))))"

definition snapshot :: "nat list \<Rightarrow> nat \<Rightarrow> state \<Rightarrow> error + (tensor \<times> vec option) list \<times> batch_norm" where
  "snapshot ls b s =
     (case traverse (linear_param s) ls of
        Inl e \<Rightarrow> Inl e
      | Inr lp \<Rightarrow>
          (case get_batch_norm s b of
             Inl e \<Rightarrow> Inl e
           | Inr bn \<Rightarrow> Inr (lp, bn)))"

text \<open>\<^verbatim>\<open>MergeBatchNorm.register\<close> on the fresh instance \<open>n\<close>.\<close>

definition register :: "inst_class \<Rightarrow> nat \<Rightarrow> nat list \<Rightarrow> nat \<Rightarrow> state \<Rightarrow> (error + inst) \<times> state" where
  "register c n ls b s =
     (case snapshot ls b s of
        Inl e \<Rightarrow> (Inl e, s)
      | Inr (lp, bn) \<Rightarrow>
          (case merge_batch_norm ls b s of
             (Inl e, s') \<Rightarrow> (Inl e, s')
           | (Inr u, s') \<Rightarrow>
               (Inr \<lparr> inst_id = n, inst_class = c, linears = ls, batch_norm_ref = b,
                      batch_norm_eps = eps bn, linear_params = lp, batch_norm_params = bn,
                      handles = [], relu = None \<rparr>, s')))"

text \<open>
  \<^verbatim>\<open>linear.bias = None\<close>. Only a linear module can have had no bias when the snapshot was
  taken; a batch norm's bias is never \<^verbatim>\<open>None\<close>.
\<close>

definition set_bias_none :: "body \<Rightarrow> body" where
  "set_bias_none b = (case b of LinearM l \<Rightarrow> LinearM (l\<lparr> bias := None \<rparr>) | _ \<Rightarrow> b)"

text \<open>
  The first loop of \<^verbatim>\<open>MergeBatchNorm.remove\<close>, over
  \<^verbatim>\<open>zip(self.linears, self.linear_params)\<close>.
\<close>

fun restore_linears :: "(nat \<times> tensor \<times> vec option) list \<Rightarrow> state \<Rightarrow> (error + unit) \<times> state" where
  "restore_linears [] s = (Inr (), s)"
| "restore_linears ((i, w, b) # rest) s =
     (case weight_data (body (modules s i)) of
        Inl e \<Rightarrow> (Inl e, s)
      | Inr old_weight \<Rightarrow>
          (let m1 = set_weight_data w (body (modules s i))
           in case b of
                None \<Rightarrow> restore_linears rest (set_body i (set_bias_none m1) s)
              | Some bv \<Rightarrow>
                  (case bias_attr m1 of
                     Inr (Some old_bias) \<Rightarrow> restore_linears rest (set_body i (set_bias_data bv m1) s)
                   | _ \<Rightarrow> (Inl (AttributeError ''data''), set_body i m1 s))))"

text \<open>\<^verbatim>\<open>MergeBatchNorm.remove\<close>: the linear parameters, the batch norm parameters, \<^verbatim>\<open>eps\<close>.\<close>

definition remove :: "inst \<Rightarrow> state \<Rightarrow> (error + unit) \<times> state" where
  "remove inst s =
     (case restore_linears (zip (linears inst) (linear_params inst)) s of
        (Inl e, s') \<Rightarrow> (Inl e, s')
      | (Inr u, s') \<Rightarrow>
          (case get_batch_norm s' (batch_norm_ref inst) of
             Inl e \<Rightarrow> (Inl e, s')
           | Inr bn \<Rightarrow>
               (Inr (), set_body (batch_norm_ref inst)
                          (BatchNormM ((batch_norm_params inst)\<lparr> eps := batch_norm_eps inst \<rparr>)) s')))"

section \<open>Forward evaluation of the torch modules\<close>

text \<open>
  The forward computations belong to torch, not to the canonizers; they are written out
  here for the module kinds whose values the canonizers promise to preserve: batch norm in
  evaluation mode, \<^verbatim>\<open>torch.nn.Linear\<close>, \<^verbatim>\<open>Conv2d\<close> and \<^verbatim>\<open>ConvTranspose2d\<close>
  (padding mode \<^verbatim>\<open>zeros\<close>, dilation 1, groups 1, no output padding).
\<close>

definition sum_upto :: "nat \<Rightarrow> (nat \<Rightarrow> real) \<Rightarrow> real" where
  "sum_upto n f = sum_list (map f [0..<n])"

text \<open>Reading a feature-map plane that is zero-padded by \<open>p1\<close> rows and \<open>p2\<close> columns.\<close>

definition xpad :: "real list list \<Rightarrow> nat \<Rightarrow> nat \<Rightarrow> nat \<Rightarrow> nat \<Rightarrow> real" where
  "xpad x p1 p2 r c =
     (if p1 \<le> r \<and> r < p1 + length x \<and> p2 \<le> c \<and> c < p2 + length (x ! (r - p1))
      then x ! (r - p1) ! (c - p2) else 0)"

definition bias_at :: "vec option \<Rightarrow> nat \<Rightarrow> real" where
  "bias_at b out = (case b of None \<Rightarrow> 0 | Some v \<Rightarrow> v ! out)"

text \<open>The extents \<open>(H, W)\<close> of a sample \<open>[C][H][W]\<close>.\<close>

definition extent :: "real list list list \<Rightarrow> nat \<times> nat" where
  "extent x = (case x of [] \<Rightarrow> (0, 0) | p # _ \<Rightarrow> (length p, (case p of [] \<Rightarrow> 0 | r # _ \<Rightarrow> length r)))"

definition rect :: "nat \<Rightarrow> nat \<Rightarrow> nat \<Rightarrow> real list list list \<Rightarrow> bool" where
  "rect c h w x =
     (length x = c \<and> list_all (\<lambda>p. length p = h \<and> list_all (\<lambda>r. length r = w) p) x)"

definition conv2d_sample ::
  "tensor \<Rightarrow> vec option \<Rightarrow> nat \<times> nat \<Rightarrow> nat \<times> nat \<Rightarrow> real list list list
     \<Rightarrow> error + real list list list" where
  "conv2d_sample w b st pd x =
     (case shape w of
        [oc, ic, kh, kw] \<Rightarrow>
          (let (h, wd) = extent x; (s1, s2) = st; (p1, p2) = pd
           in if \<not> rect ic h wd x \<or> ic = 0 \<or> s1 = 0 \<or> s2 = 0
                 \<or> h + 2 * p1 < kh \<or> wd + 2 * p2 < kw
                 \<or> (case b of None \<Rightarrow> False | Some v \<Rightarrow> length v \<noteq> oc)
              then Inl ShapeError
              else Inr (map (\<lambda>out. map (\<lambda>i. map (\<lambda>j.
                     sum_upto ic (\<lambda>c. sum_upto kh (\<lambda>p. sum_upto kw (\<lambda>q.
                       el w [out, c, p, q] * xpad (x ! c) p1 p2 (i * s1 + p) (j * s2 + q))))
                     + bias_at b out)
                       [0..<(wd + 2 * p2 - kw) div s2 + 1])
                       [0..<(h + 2 * p1 - kh) div s1 + 1])
                       [0..<oc]))
      | _ \<Rightarrow> Inl ShapeError)"

definition conv2d ::
  "tensor \<Rightarrow> vec option \<Rightarrow> nat \<times> nat \<Rightarrow> nat \<times> nat \<Rightarrow> tensor4 \<Rightarrow> error + tensor4" where
  "conv2d w b st pd xs = traverse (conv2d_sample w b st pd) xs"







section \<open>MergeBatchNormtoRight: right fusion\<close>

text \<open>
  The attribute \<^verbatim>\<open>out_channels\<close> exists on the convolutions only;
  \<^verbatim>\<open>torch.nn.Linear\<close> has \<^verbatim>\<open>out_features\<close> and a batch norm \<^verbatim>\<open>num_features\<close>
  instead.
\<close>

definition out_channels :: "body \<Rightarrow> error + nat" where
  "out_channels b =
     (case b of
        LinearM l \<Rightarrow>
          (case kind l of
             FullyConnected \<Rightarrow> Inl (AttributeError ''out_channels'')
           | Conv n \<Rightarrow> (case shape (weight l) of oc # _ \<Rightarrow> Inr oc | _ \<Rightarrow> Inl IndexError)
           | ConvTranspose n \<Rightarrow>
               (case shape (weight l) of ic # oc # _ \<Rightarrow> Inr oc | _ \<Rightarrow> Inl IndexError))
      | _ \<Rightarrow> Inl (AttributeError ''out_channels''))"

text \<open>\<^verbatim>\<open>isinstance(module, torch.nn.Conv2d)\<close> and \<^verbatim>\<open>isinstance(module, torch.nn.Linear)\<close>\<close>

definition conv2d_of :: "body \<Rightarrow> linear option" where
  "conv2d_of b = (case b of LinearM l \<Rightarrow> if kind l = Conv 2 then Some l else None | _ \<Rightarrow> None)"

definition is_fc :: "body \<Rightarrow> bool" where
  "is_fc b = (case b of LinearM l \<Rightarrow> kind l = FullyConnected | _ \<Rightarrow> False)"

text \<open>\<^verbatim>\<open>(t).sum(dim=[1, 2, 3])\<close> and \<^verbatim>\<open>(t).sum(dim=1)\<close>: one sum per slice of axis 0.\<close>

definition sum_rest :: "tensor \<Rightarrow> error + vec" where
  "sum_rest t = (case t of Sc r \<Rightarrow> Inl IndexError | Tn ts \<Rightarrow> Inr (map tsum ts))"

text \<open>
  \<^verbatim>\<open>shift[index].expand(*(shift[index].shape[0:-2] + original_weight.shape[-2:]))\<close>:
  one sample whose channel \<open>c\<close> is the constant \<open>shift ! c\<close> on a window of the kernel's
  size.
\<close>

definition shift_patch :: "vec \<Rightarrow> tensor \<Rightarrow> error + tensor4" where
  "shift_patch shift w =
     (case shape w of
        [oc, ic, kh, kw] \<Rightarrow> Inr [map (\<lambda>v. replicate kh (replicate kw v)) shift]
      | _ \<Rightarrow> Inl IndexError)"

definition register_forward_hook :: "nat \<Rightarrow> hook \<Rightarrow> state \<Rightarrow> handle \<times> state" where
  "register_forward_hook i h s =
     (Handle i False (next_handle s),
      (upd_module i (\<lambda>m. m\<lparr> forward_hooks := forward_hooks m @ [(next_handle s, h)] \<rparr>) s)
        \<lparr> next_handle := Suc (next_handle s) \<rparr>)"

definition register_forward_pre_hook :: "nat \<Rightarrow> hook \<Rightarrow> state \<Rightarrow> handle \<times> state" where
  "register_forward_pre_hook i h s =
     (Handle i True (next_handle s),
      (upd_module i (\<lambda>m. m\<lparr> forward_pre_hooks := forward_pre_hooks m @ [(next_handle s, h)] \<rparr>) s)
        \<lparr> next_handle := Suc (next_handle s) \<rparr>)"

text \<open>\<^verbatim>\<open>handle.remove()\<close> deletes the handle's key from the hook dictionary it was added to.\<close>

fun handle_remove :: "handle \<Rightarrow> state \<Rightarrow> state" where
  "handle_remove (Handle i pre k) s =
     (if pre
      then upd_module i (\<lambda>m. m\<lparr> forward_pre_hooks := filter (\<lambda>e. fst e \<noteq> k) (forward_pre_hooks m) \<rparr>) s
      else upd_module i (\<lambda>m. m\<lparr> forward_hooks := filter (\<lambda>e. fst e \<noteq> k) (forward_hooks m) \<rparr>) s)"

text \<open>\<^verbatim>\<open>setattr(module, key, value)\<close> and \<^verbatim>\<open>delattr(module, key)\<close> on the added attributes.\<close>

definition setattr :: "nat \<Rightarrow> string \<Rightarrow> attr_value \<Rightarrow> state \<Rightarrow> state" where
  "setattr i key v = upd_module i (\<lambda>m. m\<lparr> attrs := (attrs m)(key \<mapsto> v) \<rparr>)"

definition delattr :: "nat \<Rightarrow> string \<Rightarrow> state \<Rightarrow> (error + unit) \<times> state" where
  "delattr i key s =
     (case attrs (modules s i) key of
        None \<Rightarrow> (Inl (AttributeError key), s)
      | Some v \<Rightarrow> (Inr (), upd_module i (\<lambda>m. m\<lparr> attrs := (attrs m)(key := None) \<rparr>) s))"

text \<open>
  The closed form of the bias for a convolution without padding and for a fully-connected
  layer: \<^verbatim>\<open>(original_weight * shift[index]).sum(dim=[1, 2, 3]) + original_bias\<close> and
  \<^verbatim>\<open>(original_weight * shift).sum(dim=1) + original_bias\<close>; in both the shift runs along
  axis 1 of the weight.
\<close>

definition closed_bias :: "vec \<Rightarrow> tensor \<Rightarrow> vec \<Rightarrow> error + vec" where
  "closed_bias shift original_weight original_bias =
     bindE (mul_axis1 shift original_weight) (\<lambda>t.
       bindE (sum_rest t) (\<lambda>v. bvec (+) v original_bias))"

text \<open>
  One iteration of the loop of \<^verbatim>\<open>MergeBatchNormtoRight.merge_batch_norm\<close> on module
  \<open>i\<close>; it returns the handles to append to \<^verbatim>\<open>return_handles\<close>. \<open>conv2d\<close> with stride
  \<open>(1, 1)\<close> is the \<^verbatim>\<open>temp_module\<close> of the source, which is built with the kernel size,
  the padding and the padding mode of the module and no bias.
\<close>

definition merge_right_module ::
  "vec \<Rightarrow> vec \<Rightarrow> nat \<Rightarrow> state \<Rightarrow> (error + handle list) \<times> state" where
  "merge_right_module scale shift i s =
     (let m = body (modules s i)
      in case weight_data m of
           Inl e \<Rightarrow> (Inl e, s)
         | Inr original_weight \<Rightarrow>
             (case bindE (bias_attr m) (\<lambda>ba.
                       case ba of
                         None \<Rightarrow> map_sum id (\<lambda>oc. replicate oc 0) (out_channels m)
                       | Some v \<Rightarrow> Inr v) of
                Inl e \<Rightarrow> (Inl e, s)
              | Inr original_bias \<Rightarrow>
                  (let m1 = set_bias_data original_bias m; s1 = set_body i m1 s
                   in case (if is_transpose m then mul_axis0 scale original_weight
                            else mul_axis1 scale original_weight) of
                        Inl e \<Rightarrow> (Inl e, s1)
                      | Inr w \<Rightarrow>
                          (let m2 = set_weight_data w m1; s2 = set_body i m2 s1
                           in case conv2d_of m of
                                Some l \<Rightarrow>
                                  (if padding l = (0, 0) then
                                     (case closed_bias shift original_weight original_bias of
                                        Inl e \<Rightarrow> (Inl e, s2)
                                      | Inr nb \<Rightarrow> (Inr [], set_body i (set_bias_data nb m2) s2))
                                   else
                                     (case bindE (shift_patch shift original_weight)
                                             (conv2d original_weight None (1, 1) (padding l)) of
                                        Inl e \<Rightarrow> (Inl e, s2)
                                      | Inr bk \<Rightarrow>
                                          (let s3 = setattr i ''canonization_params''
                                                      (ParamsV (empty_params\<lparr> bias_kernel := Some bk \<rparr>)) s2;
                                               (h, s4) = register_forward_hook i ConvHook s3
                                           in (Inr [h], s4))))
                              | None \<Rightarrow>
                                  (if is_fc m then
                                     (case closed_bias shift original_weight original_bias of
                                        Inl e \<Rightarrow> (Inl e, s2)
                                      | Inr nb \<Rightarrow> (Inr [], set_body i (set_bias_data nb m2) s2))
                                   else (Inr [], s2))))))"

fun merge_right_loop ::
  "vec \<Rightarrow> vec \<Rightarrow> nat list \<Rightarrow> state \<Rightarrow> (error + handle list) \<times> state" where
  "merge_right_loop scale shift [] s = (Inr [], s)"
| "merge_right_loop scale shift (i # is) s =
     (case merge_right_module scale shift i s of
        (Inl e, s') \<Rightarrow> (Inl e, s')
      | (Inr hs, s') \<Rightarrow>
          (case merge_right_loop scale shift is s' of
             (Inl e, s'') \<Rightarrow> (Inl e, s'')
           | (Inr hs', s'') \<Rightarrow> (Inr (hs @ hs'), s'')))"

definition merge_batch_norm_right ::
  "nat list \<Rightarrow> nat \<Rightarrow> state \<Rightarrow> (error + handle list) \<times> state" where
  "merge_batch_norm_right ms b s =
     (case get_batch_norm s b of
        Inl e \<Rightarrow> (Inl e, s)
      | Inr bn \<Rightarrow>
          (case bindE (bn_scale bn) (\<lambda>scale. map_sum id (Pair scale) (bn_shift bn scale)) of
             Inl e \<Rightarrow> (Inl e, s)
           | Inr (scale, shift) \<Rightarrow>
               (case merge_right_loop scale shift ms s of
                  (Inl e, s') \<Rightarrow> (Inl e, s')
                | (Inr hs, s') \<Rightarrow>
                    (case get_batch_norm s' b of
                       Inl e \<Rightarrow> (Inl e, s')
                     | Inr bn' \<Rightarrow> (Inr hs, set_body b (BatchNormM (bn_identity bn')) s')))))"

text \<open>\<^verbatim>\<open>MergeBatchNormtoRight.register\<close> on the fresh instance \<open>n\<close>.\<close>

definition register_right ::
  "inst_class \<Rightarrow> nat \<Rightarrow> nat list \<Rightarrow> nat \<Rightarrow> state \<Rightarrow> (error + inst) \<times> state" where
  "register_right c n ls b s =
     (case snapshot ls b s of
        Inl e \<Rightarrow> (Inl e, s)
      | Inr (lp, bn) \<Rightarrow>
          (case merge_batch_norm_right ls b s of
             (Inl e, s') \<Rightarrow> (Inl e, s')
           | (Inr hs, s') \<Rightarrow>
               (Inr \<lparr> inst_id = n, inst_class = c, linears = ls, batch_norm_ref = b,
                      batch_norm_eps = eps bn, linear_params = lp, batch_norm_params = bn,
                      handles = hs, relu = None \<rparr>, s')))"

text \<open>The last loop of \<^verbatim>\<open>MergeBatchNormtoRight.remove\<close>.\<close>

fun delattr_loop :: "nat list \<Rightarrow> state \<Rightarrow> (error + unit) \<times> state" where
  "delattr_loop [] s = (Inr (), s)"
| "delattr_loop (i # is) s =
     (case conv2d_of (body (modules s i)) of
        Some l \<Rightarrow>
          (if padding l \<noteq> (0, 0)
           then (case delattr i ''canonization_params'' s of
                   (Inl e, s') \<Rightarrow> (Inl e, s')
                 | (Inr u, s') \<Rightarrow> delattr_loop is s')
           else delattr_loop is s)
      | None \<Rightarrow> delattr_loop is s)"

definition remove_right :: "inst \<Rightarrow> state \<Rightarrow> (error + unit) \<times> state" where
  "remove_right inst s =
     (case remove inst s of
        (Inl e, s') \<Rightarrow> (Inl e, s')
      | (Inr u, s') \<Rightarrow> delattr_loop (linears inst) (fold handle_remove (handles inst) s'))"

section \<open>ThreshReLUMergeBatchNorm\<close>

definition register_thresh ::
  "nat \<Rightarrow> nat list \<Rightarrow> nat \<Rightarrow> nat \<Rightarrow> state \<Rightarrow> (error + inst) \<times> state" where
  "register_thresh n ls b r s =
     (case get_batch_norm s b of
        Inl e \<Rightarrow> (Inl e, s)
      | Inr bn \<Rightarrow>
          (case bindE (bn_scale bn) (\<lambda>scale. map_sum id (Pair scale) (bn_shift bn scale)) of
             Inl e \<Rightarrow> (Inl e, s)
           | Inr (scale, shift) \<Rightarrow>
               (let s1 = setattr r ''canonization_params''
                           (ParamsV (empty_params\<lparr> weights := Some scale, biases := Some shift \<rparr>)) s
                in case register_right CThresh n ls b s1 of
                     (Inl e, s2) \<Rightarrow> (Inl e, s2)
                   | (Inr inst, s2) \<Rightarrow>
                       (let (h1, s3) = register_forward_pre_hook r PreHook s2;
                            (h2, s4) = register_forward_hook r FwdHook s3
                        in (Inr (inst\<lparr> handles := handles inst @ [h1, h2], relu := Some r \<rparr>), s4)))))"

definition remove_thresh :: "inst \<Rightarrow> state \<Rightarrow> (error + unit) \<times> state" where
  "remove_thresh inst s =
     (case remove_right inst s of
        (Inl e, s') \<Rightarrow> (Inl e, s')
      | (Inr u, s') \<Rightarrow>
          (case relu inst of
             None \<Rightarrow> (Inl (AttributeError ''canonization_params''), s')
           | Some r \<Rightarrow> delattr r ''canonization_params'' s'))"

text \<open>\<^verbatim>\<open>instance.remove()\<close> of a batch norm canonizer: dispatch on the instance's class.\<close>

definition inst_remove :: "inst \<Rightarrow> state \<Rightarrow> (error + unit) \<times> state" where
  "inst_remove inst s =
     (case inst_class inst of
        CSequential \<Rightarrow> remove inst s
      | CNamed \<Rightarrow> remove inst s
      | CToRight \<Rightarrow> remove_right inst s
      | CThresh \<Rightarrow> remove_thresh inst s)"

section \<open>The hooks\<close>



















section \<open>Pattern matchers\<close>

text \<open>
  The graph as the canonizers see it: the leaves in the order of
  \<^verbatim>\<open>collect_leaves(root_module)\<close> and the pairs of \<^verbatim>\<open>root_module.named_modules()\<close>.
\<close>

record graph =
  leaves :: "nat list"
  named_modules :: "(string \<times> nat) list"

text \<open>\<^verbatim>\<open>self.copy()\<close> allocates a fresh instance object.\<close>

definition copy_obj :: "state \<Rightarrow> nat \<times> state" where
  "copy_obj s = (next_obj s, s\<lparr> next_obj := Suc (next_obj s) \<rparr>)"

text \<open>\<^verbatim>\<open>module.weight.shape[0]\<close> of a linear or batch norm module.\<close>

definition weight_shape0 :: "module \<Rightarrow> error + nat" where
  "weight_shape0 md =
     (case body md of
        LinearM l \<Rightarrow> (case shape (weight l) of n # _ \<Rightarrow> Inr n | [] \<Rightarrow> Inl IndexError)
      | BatchNormM bn \<Rightarrow> (case shape (bn_weight bn) of n # _ \<Rightarrow> Inr n | [] \<Rightarrow> Inl IndexError)
      | _ \<Rightarrow> Inl (AttributeError ''weight''))"

definition isinstance_opt :: "(module \<Rightarrow> bool) \<Rightarrow> state \<Rightarrow> nat option \<Rightarrow> bool" where
  "isinstance_opt t s l = (case l of None \<Rightarrow> False | Some i \<Rightarrow> t (modules s i))"

text \<open>The loop of \<^verbatim>\<open>SequentialMergeBatchNorm.apply\<close>; \<open>last\<close> is \<^verbatim>\<open>last_leaf\<close>.\<close>

fun sequential_loop :: "nat option \<Rightarrow> nat list \<Rightarrow> state \<Rightarrow> (error + inst list) \<times> state" where
  "sequential_loop last_leaf [] s = (Inr [], s)"
| "sequential_loop last_leaf (leaf # rest) s =
     (case last_leaf of
        None \<Rightarrow> sequential_loop (Some leaf) rest s
      | Some l \<Rightarrow>
          (if is_linear (modules s l) \<and> is_batch_norm (modules s leaf) then
             (case bindE (weight_shape0 (modules s l))
                     (\<lambda>a. map_sum id (\<lambda>b. a = b) (weight_shape0 (modules s leaf))) of
                Inl e \<Rightarrow> (Inl e, s)
              | Inr True \<Rightarrow>
                  (let (n, s1) = copy_obj s
                   in case register CSequential n [l] leaf s1 of
                        (Inl e, s2) \<Rightarrow> (Inl e, s2)
                      | (Inr inst, s2) \<Rightarrow>
                          (case sequential_loop (Some leaf) rest s2 of
                             (Inl e, s3) \<Rightarrow> (Inl e, s3)
                           | (Inr insts, s3) \<Rightarrow> (Inr (inst # insts), s3)))
              | Inr False \<Rightarrow> sequential_loop (Some leaf) rest s)
           else sequential_loop (Some leaf) rest s))"

definition sequential_apply :: "graph \<Rightarrow> state \<Rightarrow> (error + inst list) \<times> state" where
  "sequential_apply g s = sequential_loop None (leaves g) s"

text \<open>The loop of \<^verbatim>\<open>MergeBatchNormtoRight.apply\<close>.\<close>

fun to_right_loop :: "nat option \<Rightarrow> nat list \<Rightarrow> state \<Rightarrow> (error + inst list) \<times> state" where
  "to_right_loop last_leaf [] s = (Inr [], s)"
| "to_right_loop last_leaf (leaf # rest) s =
     (case last_leaf of
        None \<Rightarrow> to_right_loop (Some leaf) rest s
      | Some l \<Rightarrow>
          (if is_batch_norm (modules s l) \<and> is_linear (modules s leaf) then
             (let (n, s1) = copy_obj s
              in case register_right CToRight n [leaf] l s1 of
                   (Inl e, s2) \<Rightarrow> (Inl e, s2)
                 | (Inr inst, s2) \<Rightarrow>
                     (case to_right_loop (Some leaf) rest s2 of
                        (Inl e, s3) \<Rightarrow> (Inl e, s3)
                      | (Inr insts, s3) \<Rightarrow> (Inr (inst # insts), s3)))
           else to_right_loop (Some leaf) rest s))"

definition to_right_apply :: "graph \<Rightarrow> state \<Rightarrow> (error + inst list) \<times> state" where
  "to_right_apply g s = to_right_loop None (leaves g) s"

text \<open>
  The names that \<^verbatim>\<open>canonizers.py\<close> binds at module level: its imports and its classes.
  No other global name resolves (the builtins apart), and evaluating an unbound name raises
  \<^verbatim>\<open>NameError\<close>.
\<close>

definition module_globals :: "string list" where
  "module_globals =
     [''ABCMeta'', ''abstractmethod'', ''torch'', ''collect_leaves'', ''Linear'', ''BatchNorm'',
      ''ConvolutionTranspose'', ''Canonizer'', ''MergeBatchNorm'', ''SequentialMergeBatchNorm'',
      ''MergeBatchNormtoRight'', ''ThreshReLUMergeBatchNorm'', ''NamedMergeBatchNorm'',
      ''AttributeCanonizer'', ''CompositeCanonizer'']"

text \<open>
  \<^verbatim>\<open>isinstance(leaf, <name>)\<close> for a global name: the name is evaluated first; \<open>t\<close> is
  the test the class would stand for.
\<close>

definition isinstance_global :: "string \<Rightarrow> (module \<Rightarrow> bool) \<Rightarrow> state \<Rightarrow> nat option \<Rightarrow> error + bool" where
  "isinstance_global name t s l =
     (if name \<in> set module_globals then Inr (isinstance_opt t s l) else Inl (NameError name))"

text \<open>Python's short-circuit \<^verbatim>\<open>and\<close>: the right operand is evaluated only after a true left one.\<close>

definition and_then :: "error + bool \<Rightarrow> error + bool \<Rightarrow> error + bool" where
  "and_then a b = (case a of Inl e \<Rightarrow> Inl e | Inr False \<Rightarrow> Inr False | Inr True \<Rightarrow> b)"

definition is_relu :: "module \<Rightarrow> bool" where
  "is_relu m = (body m = ReLUM)"

definition is_pool :: "module \<Rightarrow> bool" where
  "is_pool m = (body m = AdaptiveAvgPool2dM)"

text \<open>
  The loop of \<^verbatim>\<open>ThreshReLUMergeBatchNorm.apply\<close> with its three trailing variables
  \<^verbatim>\<open>oldest_leaf\<close>, \<^verbatim>\<open>old_leaf\<close>, \<^verbatim>\<open>mid_leaf\<close>.
\<close>

fun thresh_loop ::
  "nat option \<Rightarrow> nat option \<Rightarrow> nat option \<Rightarrow> nat list \<Rightarrow> state \<Rightarrow> (error + inst list) \<times> state" where
  "thresh_loop oldest old mid [] s = (Inr [], s)"
| "thresh_loop oldest old mid (leaf # rest) s =
     (case and_then (Inr (isinstance_opt is_batch_norm s old))
             (and_then (isinstance_global ''ReLU'' is_relu s mid)
                (Inr (is_linear (modules s leaf)))) of
        Inl e \<Rightarrow> (Inl e, s)
      | Inr True \<Rightarrow>
          (let (n, s1) = copy_obj s
           in case (case (old, mid) of
                      (Some b, Some r) \<Rightarrow> register_thresh n [leaf] b r s1
                    | _ \<Rightarrow> (Inl (AttributeError ''running_var''), s1)) of
                (Inl e, s2) \<Rightarrow> (Inl e, s2)
              | (Inr inst, s2) \<Rightarrow>
                  (case thresh_loop old mid (Some leaf) rest s2 of
                     (Inl e, s3) \<Rightarrow> (Inl e, s3)
                   | (Inr insts, s3) \<Rightarrow> (Inr (inst # insts), s3)))
      | Inr False \<Rightarrow>
          (case and_then (Inr (isinstance_opt is_batch_norm s oldest))
                  (and_then (isinstance_global ''ReLU'' is_relu s old)
                     (and_then (isinstance_global ''AdaptiveAvgPool2d'' is_pool s mid)
                        (Inr (is_linear (modules s leaf))))) of
             Inl e \<Rightarrow> (Inl e, s)
           | Inr True \<Rightarrow>
               (let (n, s1) = copy_obj s
                in case (case (oldest, old) of
                           (Some b, Some r) \<Rightarrow> register_thresh n [leaf] b r s1
                         | _ \<Rightarrow> (Inl (AttributeError ''running_var''), s1)) of
                     (Inl e, s2) \<Rightarrow> (Inl e, s2)
                   | (Inr inst, s2) \<Rightarrow>
                       (case thresh_loop old mid (Some leaf) rest s2 of
                          (Inl e, s3) \<Rightarrow> (Inl e, s3)
                        | (Inr insts, s3) \<Rightarrow> (Inr (inst # insts), s3)))
           | Inr False \<Rightarrow> thresh_loop old mid (Some leaf) rest s))"

definition thresh_apply :: "graph \<Rightarrow> state \<Rightarrow> (error + inst list) \<times> state" where
  "thresh_apply g s = thresh_loop None None None (leaves g) s"

text \<open>
  \<^verbatim>\<open>lookup = dict(root_module.named_modules())\<close>: a later pair with the same name wins;
  \<^verbatim>\<open>lookup[name]\<close> raises \<^verbatim>\<open>KeyError(name)\<close> for an absent name.
\<close>

definition lookup :: "graph \<Rightarrow> string \<Rightarrow> error + nat" where
  "lookup g name =
     (case map_of (rev (named_modules g)) name of None \<Rightarrow> Inl (KeyError name) | Some i \<Rightarrow> Inr i)"

text \<open>The loop of \<^verbatim>\<open>NamedMergeBatchNorm.apply\<close> over \<^verbatim>\<open>self.name_map\<close>.\<close>

fun named_loop ::
  "graph \<Rightarrow> (string list \<times> string) list \<Rightarrow> state \<Rightarrow> (error + inst list) \<times> state" where
  "named_loop g [] s = (Inr [], s)"
| "named_loop g ((linear_names, batch_norm_name) # rest) s =
     (let (n, s1) = copy_obj s
      in case bindE (traverse (lookup g) linear_names)
                (\<lambda>ls. map_sum id (Pair ls) (lookup g batch_norm_name)) of
           Inl e \<Rightarrow> (Inl e, s1)
         | Inr (ls, b) \<Rightarrow>
             (case register CNamed n ls b s1 of
                (Inl e, s2) \<Rightarrow> (Inl e, s2)
              | (Inr inst, s2) \<Rightarrow>
                  (case named_loop g rest s2 of
                     (Inl e, s3) \<Rightarrow> (Inl e, s3)
                   | (Inr insts, s3) \<Rightarrow> (Inr (inst # insts), s3))))"

section \<open>AttributeCanonizer\<close>

text \<open>
  \<^verbatim>\<open>attribute_map(name, module)\<close> returns \<^verbatim>\<open>None\<close> or a dictionary, given here by its
  items in order (the keys of a dictionary are distinct).
\<close>

type_synonym attribute_map = "string \<Rightarrow> module \<Rightarrow> (string \<times> attr_value) list option"

record attr_inst =
  attr_inst_id :: nat
  attr_module :: nat
  attribute_keys :: "string list"

text \<open>\<^verbatim>\<open>AttributeCanonizer.register\<close> on the fresh instance \<open>n\<close>.\<close>

definition register_attribute ::
  "nat \<Rightarrow> nat \<Rightarrow> (string \<times> attr_value) list \<Rightarrow> state \<Rightarrow> attr_inst \<times> state" where
  "register_attribute n i attributes s =
     (\<lparr> attr_inst_id = n, attr_module = i, attribute_keys = map fst attributes \<rparr>,
      fold (\<lambda>(key, v). setattr i key v) attributes s)"

text \<open>\<^verbatim>\<open>AttributeCanonizer.remove\<close>: \<^verbatim>\<open>delattr\<close> for each key.\<close>

fun delattr_keys :: "nat \<Rightarrow> string list \<Rightarrow> state \<Rightarrow> (error + unit) \<times> state" where
  "delattr_keys i [] s = (Inr (), s)"
| "delattr_keys i (key # keys) s =
     (case delattr i key s of
        (Inl e, s') \<Rightarrow> (Inl e, s')
      | (Inr u, s') \<Rightarrow> delattr_keys i keys s')"

definition remove_attribute :: "attr_inst \<Rightarrow> state \<Rightarrow> (error + unit) \<times> state" where
  "remove_attribute inst s = delattr_keys (attr_module inst) (attribute_keys inst) s"

text \<open>The loop of \<^verbatim>\<open>AttributeCanonizer.apply\<close> over \<^verbatim>\<open>root_module.named_modules()\<close>.\<close>

fun attribute_loop :: "attribute_map \<Rightarrow> (string \<times> nat) list \<Rightarrow> state \<Rightarrow> attr_inst list \<times> state" where
  "attribute_loop f [] s = ([], s)"
| "attribute_loop f ((name, i) # rest) s =
     (case f name (modules s i) of
        None \<Rightarrow> attribute_loop f rest s
      | Some attributes \<Rightarrow>
          (let (n, s1) = copy_obj s;
               (inst, s2) = register_attribute n i attributes s1;
               (insts, s3) = attribute_loop f rest s2
           in (inst # insts, s3)))"

section \<open>CompositeCanonizer\<close>

text \<open>An applied instance, of a batch norm canonizer or of the attribute canonizer.\<close>

datatype instance_obj = MergeInst inst | AttrInst attr_inst

definition obj_id :: "instance_obj \<Rightarrow> nat" where
  "obj_id x = (case x of MergeInst i \<Rightarrow> inst_id i | AttrInst a \<Rightarrow> attr_inst_id a)"

text \<open>\<^verbatim>\<open>instance.remove()\<close>\<close>

definition instance_remove :: "instance_obj \<Rightarrow> state \<Rightarrow> (error + unit) \<times> state" where
  "instance_remove x s =
     (case x of MergeInst i \<Rightarrow> inst_remove i s | AttrInst a \<Rightarrow> remove_attribute a s)"

definition merge_insts :: "(error + inst list) \<times> state \<Rightarrow> (error + instance_obj list) \<times> state" where
  "merge_insts r = (case r of (res, s') \<Rightarrow> (map_sum id (map MergeInst) res, s'))"

datatype canonizer =
    SequentialMergeBatchNorm
  | MergeBatchNormtoRight
  | ThreshReLUMergeBatchNorm
  | NamedMergeBatchNorm "(string list \<times> string) list"
  | AttributeCanonizer attribute_map
  | CompositeCanonizer "canonizer list"

fun canonizer_apply :: "canonizer \<Rightarrow> graph \<Rightarrow> state \<Rightarrow> (error + instance_obj list) \<times> state"
  and apply_each :: "canonizer list \<Rightarrow> graph \<Rightarrow> state \<Rightarrow> (error + instance_obj list) \<times> state" where
  "canonizer_apply SequentialMergeBatchNorm g s = merge_insts (sequential_apply g s)"
| "canonizer_apply MergeBatchNormtoRight g s = merge_insts (to_right_apply g s)"
| "canonizer_apply ThreshReLUMergeBatchNorm g s = merge_insts (thresh_apply g s)"
| "canonizer_apply (NamedMergeBatchNorm name_map) g s = merge_insts (named_loop g name_map s)"
| "canonizer_apply (AttributeCanonizer attribute_map) g s =
     (case attribute_loop attribute_map (named_modules g) s of
        (insts, s') \<Rightarrow> (Inr (map AttrInst insts), s'))"
| "canonizer_apply (CompositeCanonizer canonizers) g s =
     (case apply_each canonizers g s of
        (Inl e, s') \<Rightarrow> (Inl e, s')
      | (Inr instances, s') \<Rightarrow> (Inr (rev instances), s'))"
| "apply_each [] g s = (Inr [], s)"
| "apply_each (c # cs) g s =
     (case canonizer_apply c g s of
        (Inl e, s') \<Rightarrow> (Inl e, s')
      | (Inr insts, s') \<Rightarrow>
          (case apply_each cs g s' of
             (Inl e, s'') \<Rightarrow> (Inl e, s'')
           | (Inr others, s'') \<Rightarrow> (Inr (insts @ others), s'')))"

text \<open>\<^verbatim>\<open>CompositeCanonizer.register\<close> and \<^verbatim>\<open>CompositeCanonizer.remove\<close>: empty bodies.\<close>

definition composite_register :: "state \<Rightarrow> state" where
  "composite_register s = s"

definition composite_remove :: "state \<Rightarrow> state" where
  "composite_remove s = s"

text \<open>
  The teardown the returned list is made for: the caller removes the instances in the
  order given, \<^verbatim>\<open>for instance in instances: instance.remove()\<close>.
\<close>

fun remove_each :: "instance_obj list \<Rightarrow> state \<Rightarrow> (error + unit) \<times> state" where
  "remove_each [] s = (Inr (), s)"
| "remove_each (x # xs) s =
     (case instance_remove x s of
        (Inl e, s') \<Rightarrow> (Inl e, s')
      | (Inr u, s') \<Rightarrow> remove_each xs s')"

section \<open>Concrete modules and graphs\<close>

definition mk_module :: "body \<Rightarrow> module" where
  "mk_module b =
     \<lparr> body = b, attrs = (\<lambda>k. None), forward_pre_hooks = [], forward_hooks = [] \<rparr>"

definition mk_state :: "module list \<Rightarrow> state" where
  "mk_state ms =
     \<lparr> modules = (\<lambda>i. if i < length ms then ms ! i else mk_module OtherM),
       next_handle = 0, next_obj = 0 \<rparr>"

text \<open>A batch norm over two channels with \<open>sqrt (var + eps) = 2\<close>, and one over three.\<close>

definition ex_bn :: batch_norm where
  "ex_bn =
     \<lparr> bn_weight = Tn [Sc 2, Sc 3], bn_bias = [1, - 1], running_mean = [1, 2],
       running_var = [3, 3], eps = 1 \<rparr>"

definition ex_bn3 :: batch_norm where
  "ex_bn3 =
     \<lparr> bn_weight = Tn [Sc 2, Sc 3, Sc 1], bn_bias = [1, - 1, 0], running_mean = [1, 2, 0],
       running_var = [3, 3, 3], eps = 1 \<rparr>"

text \<open>\<^verbatim>\<open>Conv2d(2, 1, kernel_size=1, bias=False)\<close>\<close>

definition ex_conv :: linear where
  "ex_conv =
     \<lparr> kind = Conv 2, weight = Tn [Tn [Tn [Tn [Sc 1]], Tn [Tn [Sc 2]]]], bias = None,
       stride = (1, 1), padding = (0, 0) \<rparr>"

text \<open>\<^verbatim>\<open>ConvTranspose2d(2, 3, kernel_size=1)\<close>: the weight has shape \<open>[2, 3, 1, 1]\<close>.\<close>

definition ex_convT :: linear where
  "ex_convT =
     \<lparr> kind = ConvTranspose 2,
       weight = Tn [Tn [Tn [Tn [Sc 1]], Tn [Tn [Sc 2]], Tn [Tn [Sc 3]]],
                    Tn [Tn [Tn [Sc 4]], Tn [Tn [Sc 5]], Tn [Tn [Sc 6]]]],
       bias = Some [0, 0, 0], stride = (1, 1), padding = (0, 0) \<rparr>"

text \<open>\<^verbatim>\<open>Linear(2, 2)\<close>\<close>

definition ex_fc :: linear where
  "ex_fc =
     \<lparr> kind = FullyConnected, weight = Tn [Tn [Sc 1, Sc 2], Tn [Sc 3, Sc 4]], bias = Some [1, 1],
       stride = (1, 1), padding = (0, 0) \<rparr>"

text \<open>Batch norm, ReLU, convolution: the three-node pattern of the threshold rewrite.\<close>

definition thresh_graph :: graph where
  "thresh_graph = \<lparr> leaves = [0, 1, 2], named_modules = [] \<rparr>"

definition thresh_state :: state where
  "thresh_state =
     mk_state [mk_module (BatchNormM ex_bn), mk_module ReLUM, mk_module (LinearM ex_conv)]"

text \<open>A transposed convolution with three output channels followed by a batch norm over three.\<close>

definition convT_graph :: graph where
  "convT_graph = \<lparr> leaves = [0, 1], named_modules = [] \<rparr>"

definition convT_state :: state where
  "convT_state = mk_state [mk_module (LinearM ex_convT), mk_module (BatchNormM ex_bn3)]"

text \<open>A fully-connected layer followed by a batch norm, with their names.\<close>

definition named_graph :: graph where
  "named_graph = \<lparr> leaves = [0, 1], named_modules = [(''fc'', 0), (''bn'', 1)] \<rparr>"

definition named_state :: state where
  "named_state = mk_state [mk_module (LinearM ex_fc), mk_module (BatchNormM ex_bn)]"

text \<open>\<^verbatim>\<open>Linear(2, 2, bias=False)\<close>\<close>

definition ex_fc_nobias :: linear where
  "ex_fc_nobias =
     \<lparr> kind = FullyConnected, weight = Tn [Tn [Sc 1, Sc 2], Tn [Sc 3, Sc 4]], bias = None,
       stride = (1, 1), padding = (0, 0) \<rparr>"

text \<open>A batch norm followed by the linear layer without a bias.\<close>

definition right_fc_graph :: graph where
  "right_fc_graph = \<lparr> leaves = [0, 1], named_modules = [] \<rparr>"

definition right_fc_state :: state where
  "right_fc_state = mk_state [mk_module (BatchNormM ex_bn), mk_module (LinearM ex_fc_nobias)]"




text \<open>\<^verbatim>\<open>Conv2d(2, 1, kernel_size=2, padding=1)\<close>\<close>

definition ex_conv_pad :: linear where
  "ex_conv_pad =
     \<lparr> kind = Conv 2,
       weight = Tn [Tn [Tn [Tn [Sc 1, Sc 2], Tn [Sc 3, Sc 4]], Tn [Tn [Sc 1, Sc 0], Tn [Sc 0, Sc 1]]]],
       bias = Some [1], stride = (1, 1), padding = (1, 1) \<rparr>"

text \<open>A batch norm followed by the padded convolution, and the same with a ReLU between.\<close>

definition right_pad_state :: state where
  "right_pad_state = mk_state [mk_module (BatchNormM ex_bn), mk_module (LinearM ex_conv_pad)]"

definition thresh_pad_state :: state where
  "thresh_pad_state =
     mk_state [mk_module (BatchNormM ex_bn), mk_module ReLUM, mk_module (LinearM ex_conv_pad)]"

section \<open>Predicates for the statements\<close>

text \<open>A batch norm that computes the identity, as \<^verbatim>\<open>merge_batch_norm\<close> leaves it.\<close>

definition is_identity_bn :: "body \<Rightarrow> bool" where
  "is_identity_bn b = (case b of BatchNormM bn \<Rightarrow> bn = bn_identity bn | _ \<Rightarrow> False)"

text \<open>The batch norm of this name has been merged away.\<close>

definition merged_at :: "graph \<Rightarrow> string \<Rightarrow> state \<Rightarrow> bool" where
  "merged_at g name s =
     (case lookup g name of Inl e \<Rightarrow> False | Inr b \<Rightarrow> is_identity_bn (body (modules s b)))"

text \<open>
  Two sequential left-fusion canonizers in one composite, and the same composite as the
  only constituent of another composite.
\<close>

definition flat_composite :: canonizer where
  "flat_composite = CompositeCanonizer [SequentialMergeBatchNorm, SequentialMergeBatchNorm]"

definition nested_composite :: canonizer where
  "nested_composite = CompositeCanonizer [flat_composite]"



text \<open>A body with its weight and bias blanked: what the merges never touch.\<close>

definition core :: "body \<Rightarrow> body" where
  "core b =
     (case b of
        LinearM m \<Rightarrow> LinearM (m\<lparr> weight := Sc 0, bias := None \<rparr>)
      | BatchNormM bn \<Rightarrow> BatchNormM (bn\<lparr> bn_weight := Sc 0, bn_bias := [] \<rparr>)
      | _ \<Rightarrow> b)"

text \<open>The module has a bias that is not \<^verbatim>\<open>None\<close>; the module has a weight.\<close>

definition has_bias :: "body \<Rightarrow> bool" where
  "has_bias b = (case bias_attr b of Inr (Some v) \<Rightarrow> True | _ \<Rightarrow> False)"

definition has_weight :: "body \<Rightarrow> bool" where
  "has_weight b = (case weight_data b of Inr w \<Rightarrow> True | _ \<Rightarrow> False)"

text \<open>\<open>y\<close> with the weight and the bias of \<open>x\<close>.\<close>

definition restore_from :: "body \<Rightarrow> body \<Rightarrow> body" where
  "restore_from x y =
     (case (weight_data x, bias_attr x) of
        (Inr w, Inr None) \<Rightarrow> set_bias_none (set_weight_data w y)
      | (Inr w, Inr (Some v)) \<Rightarrow> set_bias_data v (set_weight_data w y)
      | _ \<Rightarrow> y)"

text \<open>Everything of a module but its body.\<close>

definition rest_of :: "module \<Rightarrow> (string \<Rightarrow> attr_value option) \<times> (nat \<times> hook) list \<times> (nat \<times> hook) list" where
  "rest_of md = (attrs md, forward_pre_hooks md, forward_hooks md)"

text \<open>\<^verbatim>\<open>isinstance(module, torch.nn.Conv2d) and module.padding != (0, 0)\<close>\<close>

definition padded_conv :: "body \<Rightarrow> bool" where
  "padded_conv b = (case conv2d_of b of Some l \<Rightarrow> padding l \<noteq> (0, 0) | None \<Rightarrow> False)"

text \<open>What \<^verbatim>\<open>handle.remove()\<close> does to one of the two hook lists of module \<open>j\<close>.\<close>

fun strip_hook :: "nat \<Rightarrow> bool \<Rightarrow> handle \<Rightarrow> (nat \<times> hook) list \<Rightarrow> (nat \<times> hook) list" where
  "strip_hook j pre (Handle i pre' k) hs =
     (if i = j \<and> pre' = pre then filter (\<lambda>e. fst e \<noteq> k) hs else hs)"

text \<open>Every hook of the module has a key below \<open>k\<close>, as the keys drawn so far have.\<close>

definition hooks_below :: "nat \<Rightarrow> module \<Rightarrow> bool" where
  "hooks_below k md = list_all (\<lambda>e. fst e < k) (forward_pre_hooks md @ forward_hooks md)"

section \<open>The threshold matcher\<close>

lemma thresh_loop_never_registers:
  "thresh_loop oldest old mid ls s = (Inr [], s)
     \<or> thresh_loop oldest old mid ls s = (Inl (NameError ''ReLU''), s)"
proof (induction ls arbitrary: oldest old mid)
  case Nil
  then show ?case by simp
next
  case (Cons leaf rest)
  show ?case
    using Cons.IH [of old mid "Some leaf"]
    by (auto simp: and_then_def isinstance_global_def module_globals_def
        split: sum.splits bool.splits)
qed

text \<open>
  C6. \<^verbatim>\<open>ThreshReLUMergeBatchNorm.apply\<close> is to register one instance for each match of
  Normalization, Activation, Linear. On the leaves batch norm, ReLU, convolution the code
  registers nothing: the name \<^verbatim>\<open>ReLU\<close> is not bound in \<^verbatim>\<open>canonizers.py\<close>, and its
  evaluation in the first condition raises \<^verbatim>\<open>NameError\<close> as soon as \<^verbatim>\<open>old_leaf\<close> is a
  batch norm; the graph is left as it was.
\<close>

theorem thresh_apply_name_error:
  "thresh_apply thresh_graph thresh_state = (Inl (NameError ''ReLU''), thresh_state)"
  by (simp add: thresh_apply_def thresh_graph_def thresh_state_def mk_state_def mk_module_def
      isinstance_opt_def is_batch_norm_def and_then_def isinstance_global_def
      module_globals_def)

section \<open>The sequential left-fusion matcher\<close>

text \<open>
  C7. The sequential matcher is to register a Linear-kind leaf followed by a batch norm
  exactly when the output-channel count of the first equals the channel count of the second.
  For a transposed convolution with two input and three output channels followed by a batch
  norm over three channels the counts agree, and the code registers nothing: it compares
  \<^verbatim>\<open>weight.shape[0]\<close>, which is the input-channel count of a transposed convolution.
\<close>

theorem sequential_apply_skips_transpose:
  "out_channels (LinearM ex_convT) = Inr 3 \<and> shape (bn_weight ex_bn3) = [3]
     \<and> sequential_apply convT_graph convT_state = (Inr [], convT_state)"
  by (simp add: sequential_apply_def convT_graph_def convT_state_def mk_state_def mk_module_def
      ex_convT_def ex_bn3_def out_channels_def is_linear_def is_batch_norm_def
      weight_shape0_def bindE_def)

section \<open>The named matcher\<close>

lemma resolve_missing:
  "find (\<lambda>n. map_of (rev (named_modules g)) n = None) (lns @ [bnn]) = Some name
     \<Longrightarrow> bindE (traverse (lookup g) lns) (\<lambda>ls. map_sum id (Pair ls) (lookup g bnn))
           = Inl (KeyError name)"
proof (induction lns)
  case Nil
  then show ?case by (auto simp: bindE_def lookup_def split: if_splits option.splits)
next
  case (Cons a lns)
  then show ?case
    by (auto simp: bindE_def lookup_def split: if_splits option.splits sum.splits)
qed

lemma named_loop_append:
  "named_loop g pre s = (Inr insts, s1) \<Longrightarrow>
     named_loop g (pre @ rest) s =
       (case named_loop g rest s1 of
          (Inl e, s2) \<Rightarrow> (Inl e, s2)
        | (Inr others, s2) \<Rightarrow> (Inr (insts @ others), s2))"
proof (induction pre arbitrary: s insts)
  case Nil
  then show ?case by (auto split: prod.splits sum.splits)
next
  case (Cons p pre)
  obtain lns bnn where p: "p = (lns, bnn)" by (cases p)
  show ?case
    using Cons.prems Cons.IH
    by (auto simp: p Let_def split: prod.splits sum.splits)
qed

lemma tconst_idem: "tconst c (tconst c t) = tconst c t"
  by (induction t) auto

lemma bn_identity_idem: "bn_identity (bn_identity bn) = bn_identity bn"
  by (simp add: bn_identity_def tconst_idem o_def)

lemma register_identity:
  "register c n ls b s = (Inr inst, s') \<Longrightarrow> is_identity_bn (body (modules s' b))"
  by (auto simp: register_def merge_batch_norm_def set_body_def upd_module_def is_identity_bn_def
      bn_identity_idem split: sum.splits prod.splits)

lemma named_loop_last:
  "named_loop g (pre @ [(lns, bnn)]) s = (Inr insts, s1) \<Longrightarrow>
     merged_at g bnn s1"
proof (induction pre arbitrary: s insts)
  case Nil
  then obtain ls b i where
    h: "lookup g bnn = Inr b" "register CNamed (next_obj s) ls b (s\<lparr>next_obj := Suc (next_obj s)\<rparr>) = (Inr i, s1)"
    by (cases "lookup g bnn")
       (auto simp: Let_def copy_obj_def bindE_def split: prod.splits sum.splits)
  show ?case
    using register_identity [OF h(2)] h(1) by (simp add: merged_at_def)
next
  case (Cons p pre)
  obtain l b where p: "p = (l, b)" by (cases p)
  from Cons.prems obtain s2 r where "named_loop g (pre @ [(lns, bnn)]) s2 = (Inr r, s1)"
    by (auto simp: p Let_def split: prod.splits sum.splits)
  then show ?case by (rule Cons.IH)
qed

text \<open>
  C8, as the code has it. When the pairs \<open>pre\<close> of the name map register without error
  and the next pair names a module that the index lacks, \<^verbatim>\<open>NamedMergeBatchNorm.apply\<close>
  raises \<^verbatim>\<open>KeyError\<close> with the first such name of the pair (linear names first, then the
  batch norm name). Nothing is rolled back and nothing more is mutated: the call is aborted
  in exactly the state the registrations of \<open>pre\<close> produced, one more instance object
  allocated; in that state the batch norm of the last pair of \<open>pre\<close> is still merged away.
\<close>

theorem named_apply_missing_name:
  assumes "named_loop g pre s = (Inr insts, s1)"
    and "find (\<lambda>n. map_of (rev (named_modules g)) n = None) (lns @ [bnn]) = Some name"
  shows "named_loop g (pre @ (lns, bnn) # rest) s
           = (Inl (KeyError name), s1\<lparr> next_obj := Suc (next_obj s1) \<rparr>)
         \<and> (pre = [] \<or> merged_at g (snd (last pre)) s1)"
proof -
  have 1: "named_loop g (pre @ (lns, bnn) # rest) s
           = (Inl (KeyError name), s1\<lparr> next_obj := Suc (next_obj s1) \<rparr>)"
    using named_loop_append [OF assms(1), of "(lns, bnn) # rest"] resolve_missing [OF assms(2)]
    by (simp add: copy_obj_def)
  have 2: "pre = [] \<or> merged_at g (snd (last pre)) s1"
  proof (cases pre rule: rev_cases)
    case Nil
    then show ?thesis by simp
  next
    case (snoc ys y)
    obtain l b where y: "y = (l, b)" by (cases y)
    show ?thesis
      using named_loop_last [of g ys l b s insts s1] assms(1) by (simp add: snoc y)
  qed
  show ?thesis using 1 2 by simp
qed

theorem named_apply_missing_name_witness:
  "fst (named_loop named_graph
          [([''fc''], ''bn''), ([''missing''], ''bn''), ([''fc''], ''bn'')] named_state)
     = Inl (KeyError ''missing'')
   \<and> is_identity_bn (body (modules (snd (named_loop named_graph
          [([''fc''], ''bn''), ([''missing''], ''bn''), ([''fc''], ''bn'')] named_state)) 1))"
proof -
  have "\<exists>insts s1. named_loop named_graph [([''fc''], ''bn'')] named_state = (Inr insts, s1)"
    by (simp add: named_state_def named_graph_def mk_state_def mk_module_def ex_fc_def
        ex_bn_def copy_obj_def lookup_def bindE_def register_def snapshot_def linear_param_def
        weight_data_def bias_attr_def get_batch_norm_def merge_batch_norm_def bn_scale_def
        vec_of_def bvec_def merge_left_module_def is_transpose_def set_body_def upd_module_def
        set_weight_data_def set_bias_data_def bn_identity_def Let_def)
  then obtain insts s1 where
    h: "named_loop named_graph [([''fc''], ''bn'')] named_state = (Inr insts, s1)"
    by blast
  have f: "find (\<lambda>n. map_of (rev (named_modules named_graph)) n = None)
             ([''missing''] @ [''bn'']) = Some ''missing''"
    by (simp add: named_graph_def)
  have l: "lookup named_graph ''bn'' = Inr 1"
    by (simp add: lookup_def named_graph_def)
  show ?thesis
    using named_apply_missing_name [OF h f, of "[([''fc''], ''bn'')]"] l
    by (auto simp: merged_at_def)
qed

text \<open>
  C8, as stated, fails: with the name map \<open>[(fc, bn), (missing, bn)]\<close> the call raises
  \<^verbatim>\<open>KeyError\<close> for \<open>missing\<close> after the pair \<open>(fc, bn)\<close> has been merged, and the
  fully-connected layer is left with its merged parameters.
\<close>

theorem named_apply_partial_mutation:
  "fst (named_loop named_graph [([''fc''], ''bn''), ([''missing''], ''bn'')] named_state)
     = Inl (KeyError ''missing'')
   \<and> body (modules (snd (named_loop named_graph
                [([''fc''], ''bn''), ([''missing''], ''bn'')] named_state)) 0)
       \<noteq> body (modules named_state 0)"
  by (simp add: named_state_def named_graph_def mk_state_def mk_module_def ex_fc_def ex_bn_def
        copy_obj_def lookup_def bindE_def register_def snapshot_def linear_param_def
        weight_data_def bias_attr_def get_batch_norm_def merge_batch_norm_def bn_scale_def
        vec_of_def bvec_def merge_left_module_def is_transpose_def set_body_def upd_module_def
        set_weight_data_def set_bias_data_def bn_identity_def Let_def)

section \<open>The composite\<close>

lemmas eval_defs =
  named_state_def named_graph_def mk_state_def mk_module_def ex_fc_def ex_bn_def
  copy_obj_def lookup_def bindE_def register_def snapshot_def linear_param_def
  weight_data_def bias_attr_def get_batch_norm_def merge_batch_norm_def bn_scale_def
  vec_of_def bvec_def merge_left_module_def is_transpose_def set_body_def upd_module_def
  set_weight_data_def set_bias_data_def bn_identity_def Let_def
  sequential_apply_def is_linear_def is_batch_norm_def weight_shape0_def merge_insts_def
  obj_id_def instance_remove_def inst_remove_def remove_def set_bias_none_def

text \<open>
  On a fully-connected layer followed by a batch norm, both sequential canonizers of the
  flat composite match the pair. The composite returns the two instances in the reverse of
  their construction order, and removing them in the order given restores every module.
\<close>

lemma flat_composite_teardown:
  "map obj_id (projr (fst (canonizer_apply flat_composite named_graph named_state))) = [1, 0]
   \<and> fst (remove_each (projr (fst (canonizer_apply flat_composite named_graph named_state)))
             (snd (canonizer_apply flat_composite named_graph named_state))) = Inr ()
   \<and> modules (snd (remove_each
             (projr (fst (canonizer_apply flat_composite named_graph named_state)))
             (snd (canonizer_apply flat_composite named_graph named_state))))
       = modules named_state"
  by (auto simp: flat_composite_def eval_defs fun_eq_iff less_Suc_eq)

text \<open>
  C9. \<^verbatim>\<open>CompositeCanonizer.apply\<close> is to return the instances in the exact reverse of
  their construction order. When the composite above is itself the constituent of a
  composite, the code reverses the list once per level: the caller receives the two
  instances in construction order (object identities 0, 1), and removing them in the order
  given ends without error but leaves the batch norm merged away instead of restored.
\<close>

theorem nested_composite_teardown:
  "\<not> isl (fst (canonizer_apply nested_composite named_graph named_state))
   \<and> map obj_id (projr (fst (canonizer_apply nested_composite named_graph named_state))) = [0, 1]
   \<and> fst (remove_each (projr (fst (canonizer_apply nested_composite named_graph named_state)))
             (snd (canonizer_apply nested_composite named_graph named_state))) = Inr ()
   \<and> body (modules (snd (remove_each
             (projr (fst (canonizer_apply nested_composite named_graph named_state)))
             (snd (canonizer_apply nested_composite named_graph named_state)))) 1)
       \<noteq> body (modules named_state 1)"
  by (simp add: nested_composite_def flat_composite_def eval_defs)

section \<open>Right fusion\<close>

text \<open>
  C3. Right fusion into a fully-connected layer is to set the weight and the closed-form
  bias and to preserve the value. For a batch norm followed by a fully-connected layer
  without a bias the code raises instead: the zero bias is built from
  \<^verbatim>\<open>module.out_channels\<close>, an attribute \<^verbatim>\<open>torch.nn.Linear\<close> does not have. No module
  has been mutated when the call is aborted.
\<close>

theorem to_right_apply_bias_free_linear:
  "fst (to_right_apply right_fc_graph right_fc_state) = Inl (AttributeError ''out_channels'')
   \<and> modules (snd (to_right_apply right_fc_graph right_fc_state)) = modules right_fc_state"
  by (simp add: to_right_apply_def right_fc_graph_def right_fc_state_def mk_state_def
      mk_module_def ex_bn_def ex_fc_nobias_def is_batch_norm_def is_linear_def copy_obj_def
      register_right_def snapshot_def linear_param_def weight_data_def bias_attr_def
      get_batch_norm_def merge_batch_norm_right_def bn_scale_def bn_shift_def vec_of_def
      bvec_def bindE_def merge_right_module_def out_channels_def Let_def)




lemma modules_set_body:
  "modules (set_body i b s) j = (if j = i then (modules s i)\<lparr> body := b \<rparr> else modules s j)"
  by (simp add: set_body_def upd_module_def)

lemma next_handle_set_body [simp]: "next_handle (set_body i b s) = next_handle s"
  by (simp add: set_body_def upd_module_def)




section \<open>Round trip of register and remove\<close>

lemma module_eqI: "body a = body b \<Longrightarrow> rest_of a = rest_of b \<Longrightarrow> a = (b::module)"
  by (simp add: rest_of_def)

lemma body_set_body [simp]:
  "body (modules (set_body i b s) j) = (if j = i then b else body (modules s j))"
  by (simp add: set_body_def upd_module_def)

lemma rest_set_body [simp]: "rest_of (modules (set_body i b s) j) = rest_of (modules s j)"
  by (simp add: set_body_def upd_module_def rest_of_def)

lemma next_obj_set_body [simp]: "next_obj (set_body i b s) = next_obj s"
  by (simp add: set_body_def upd_module_def)

lemma get_batch_norm_body: "get_batch_norm s i = Inr bn \<longleftrightarrow> body (modules s i) = BatchNormM bn"
  by (auto simp: get_batch_norm_def split: body.splits)

lemma linear_core_eq:
  "a\<lparr> weight := w0, bias := b0 \<rparr> = b\<lparr> weight := w0, bias := b0 \<rparr>
     \<Longrightarrow> a\<lparr> weight := weight b, bias := bias b \<rparr> = (b::linear)"
  by (cases a; cases b; simp)

lemma batch_norm_core_eq:
  "a\<lparr> bn_weight := w0, bn_bias := b0 \<rparr> = b\<lparr> bn_weight := w0, bn_bias := b0 \<rparr>
     \<Longrightarrow> a\<lparr> bn_weight := bn_weight b, bn_bias := bn_bias b \<rparr> = (b::batch_norm)"
  by (cases a; cases b; simp)

lemma restore_from_core:
  "core y = core x \<Longrightarrow> has_weight x \<Longrightarrow> restore_from x y = x"
  by (cases x; cases y)
     (auto simp: core_def restore_from_def has_weight_def weight_data_def bias_attr_def
       set_bias_none_def set_bias_data_def set_weight_data_def
       split: option.splits dest: linear_core_eq batch_norm_core_eq)

lemma core_set [simp]:
  "core (set_weight_data w x) = core x" "core (set_bias_data v x) = core x"
  "core (set_bias_none x) = core x"
  by (cases x; simp add: core_def set_weight_data_def set_bias_data_def set_bias_none_def)+

lemma has_weight_set [simp]:
  "has_weight (set_weight_data w x) = has_weight x" "has_weight (set_bias_data v x) = has_weight x"
  by (cases x; simp add: has_weight_def weight_data_def set_weight_data_def set_bias_data_def)+

lemma has_bias_set [simp]:
  "has_weight x \<Longrightarrow> has_bias (set_bias_data v x)"
  "has_bias (set_weight_data w x) = has_bias x"
  by (cases x; simp add: has_weight_def has_bias_def weight_data_def bias_attr_def
        set_weight_data_def set_bias_data_def)+

lemma bias_attr_set_weight [simp]: "bias_attr (set_weight_data w x) = bias_attr x"
  by (cases x; simp add: bias_attr_def set_weight_data_def)

lemma merge_left_module_effect:
  assumes "merge_left_module scale b i s = (Inr u, s')"
  shows "next_handle s' = next_handle s \<and> next_obj s' = next_obj s
     \<and> (\<forall>j. rest_of (modules s' j) = rest_of (modules s j))
     \<and> (\<forall>j. j \<noteq> i \<longrightarrow> body (modules s' j) = body (modules s j))
     \<and> core (body (modules s' i)) = core (body (modules s i))
     \<and> has_weight (body (modules s i))
     \<and> has_weight (body (modules s' i)) \<and> has_bias (body (modules s' i))"
proof -
  from assms have hw: "has_weight (body (modules s i))"
    by (auto simp: merge_left_module_def has_weight_def Let_def split: sum.splits)
  show ?thesis
    using assms hw
    by (auto simp: merge_left_module_def Let_def split: sum.splits option.splits)
qed

lemma merge_left_loop_effect:
  "merge_left_loop scale b ls s = (Inr u, s') \<Longrightarrow>
     next_handle s' = next_handle s \<and> next_obj s' = next_obj s
     \<and> (\<forall>j. rest_of (modules s' j) = rest_of (modules s j))
     \<and> (\<forall>j. j \<notin> set ls \<longrightarrow> body (modules s' j) = body (modules s j))
     \<and> (\<forall>j. core (body (modules s' j)) = core (body (modules s j)))
     \<and> (\<forall>j. has_weight (body (modules s' j)) = has_weight (body (modules s j)))
     \<and> (\<forall>j \<in> set ls. has_weight (body (modules s' j)) \<and> has_bias (body (modules s' j)))"
proof (induction ls arbitrary: s)
  case Nil
  then show ?case by simp
next
  case (Cons i ls)
  from Cons.prems obtain s1 where
    h: "merge_left_module scale b i s = (Inr (), s1)" "merge_left_loop scale b ls s1 = (Inr u, s')"
    by (auto split: sum.splits prod.splits)
  note m = merge_left_module_effect [OF h(1)]
  note ih = Cons.IH [OF h(2)]
  have hw: "\<forall>j. has_weight (body (modules s1 j)) = has_weight (body (modules s j))"
    using m by (metis (full_types))
  have keep: "has_weight (body (modules s' i)) \<and> has_bias (body (modules s' i))"
  proof (cases "i \<in> set ls")
    case True
    then show ?thesis using ih by blast
  next
    case False
    then have "body (modules s' i) = body (modules s1 i)" using ih by blast
    then show ?thesis using m by simp
  qed
  show ?case
  proof (intro conjI allI ballI impI)
    fix j assume "j \<in> set (i # ls)"
    then show "has_weight (body (modules s' j))" "has_bias (body (modules s' j))"
      using keep ih by auto
  next
    fix j assume "j \<notin> set (i # ls)"
    then show "body (modules s' j) = body (modules s j)"
      using ih m by auto
  next
    fix j show "core (body (modules s' j)) = core (body (modules s j))"
      using ih m by (cases "j = i") auto
  next
    fix j show "has_weight (body (modules s' j)) = has_weight (body (modules s j))"
      using ih hw by simp
  qed (use ih m in auto)
qed

lemma traverse_linear_param:
  "traverse (linear_param s) ls = Inr lp \<Longrightarrow>
     length lp = length ls
     \<and> (\<forall>k<length ls. weight_data (body (modules s (ls ! k))) = Inr (fst (lp ! k))
            \<and> bias_attr (body (modules s (ls ! k))) = Inr (snd (lp ! k)))"
proof (induction ls arbitrary: lp)
  case Nil
  then show ?case by simp
next
  case (Cons i ls)
  from Cons.prems obtain p lp' where
    h: "linear_param s i = Inr p" "traverse (linear_param s) ls = Inr lp'" "lp = p # lp'"
    by (auto split: sum.splits)
  have "weight_data (body (modules s i)) = Inr (fst p) \<and> bias_attr (body (modules s i)) = Inr (snd p)"
    using h(1) by (cases "bias_attr (body (modules s i))")
      (auto simp: linear_param_def bindE_def split: sum.splits)
  then show ?case
    using Cons.IH [OF h(2)] h(3) by (auto simp: nth_Cons split: nat.splits)
qed

text \<open>Restoring from a snapshot of \<open>s0\<close>.\<close>

lemma restore_linears_effect:
  assumes "\<forall>(i, w, b) \<in> set zs. weight_data (body (modules s0 i)) = Inr w
              \<and> bias_attr (body (modules s0 i)) = Inr b
              \<and> has_weight (body (modules s i))
              \<and> (b \<noteq> None \<longrightarrow> has_bias (body (modules s i)))"
  shows "\<exists>s'. restore_linears zs s = (Inr (), s')
     \<and> next_handle s' = next_handle s \<and> next_obj s' = next_obj s
     \<and> (\<forall>j. rest_of (modules s' j) = rest_of (modules s j))
     \<and> (\<forall>j. body (modules s' j)
            = (if j \<in> fst ` set zs then restore_from (body (modules s0 j)) (body (modules s j))
               else body (modules s j)))"
  using assms
proof (induction zs arbitrary: s)
  case Nil
  then show ?case by simp
next
  case (Cons z zs)
  obtain i w b where z: "z = (i, w, b)" by (cases z)
  from Cons.prems have
    m: "weight_data (body (modules s0 i)) = Inr w" "bias_attr (body (modules s0 i)) = Inr b"
       "has_weight (body (modules s i))" "b \<noteq> None \<longrightarrow> has_bias (body (modules s i))"
    by (auto simp: z)
  define s1 where "s1 = set_body i (restore_from (body (modules s0 i)) (body (modules s i))) s"
  have step: "restore_linears (z # zs) s = restore_linears zs s1"
    using m by (cases b)
      (auto simp: z s1_def restore_from_def has_weight_def has_bias_def Let_def
        split: sum.splits option.splits)
  have twice: "restore_from (body (modules s0 i)) (restore_from (body (modules s0 i)) y)
                 = restore_from (body (modules s0 i)) y" for y
    using m(1,2) by (cases b; cases y)
      (auto simp: restore_from_def set_bias_none_def set_bias_data_def set_weight_data_def)
  have hw1: "has_weight (restore_from (body (modules s0 i)) y) = has_weight y" for y
    using m(1,2) by (cases b; cases y)
      (auto simp: restore_from_def set_bias_none_def set_bias_data_def set_weight_data_def
        has_weight_def weight_data_def)
  have hb1: "b \<noteq> None \<Longrightarrow> has_weight y \<Longrightarrow> has_bias (restore_from (body (modules s0 i)) y)" for y
    using m(1,2) by (cases b) (auto simp: restore_from_def)
  have inv: "\<forall>(j, wj, bj) \<in> set zs. weight_data (body (modules s0 j)) = Inr wj
              \<and> bias_attr (body (modules s0 j)) = Inr bj
              \<and> has_weight (body (modules s1 j))
              \<and> (bj \<noteq> None \<longrightarrow> has_bias (body (modules s1 j)))"
  proof -
    have "weight_data (body (modules s0 j)) = Inr wj
              \<and> bias_attr (body (modules s0 j)) = Inr bj
              \<and> has_weight (body (modules s1 j))
              \<and> (bj \<noteq> None \<longrightarrow> has_bias (body (modules s1 j)))"
      if "(j, wj, bj) \<in> set zs" for j wj bj
    proof -
      from that Cons.prems have
        mj: "weight_data (body (modules s0 j)) = Inr wj" "bias_attr (body (modules s0 j)) = Inr bj"
            "has_weight (body (modules s j))" "bj \<noteq> None \<longrightarrow> has_bias (body (modules s j))"
        by fastforce+
      show ?thesis
      proof (cases "j = i")
        case True
        then have "bj = b" using mj(2) m(2) by simp
        then show ?thesis using mj True m(3) hw1 hb1 by (simp add: s1_def)
      next
        case False
        then show ?thesis using mj by (simp add: s1_def)
      qed
    qed
    then show ?thesis by blast
  qed
  from Cons.IH [OF inv] obtain s' where
    r: "restore_linears zs s1 = (Inr (), s')" "next_handle s' = next_handle s1"
       "next_obj s' = next_obj s1" "\<forall>j. rest_of (modules s' j) = rest_of (modules s1 j)"
       "\<forall>j. body (modules s' j)
            = (if j \<in> fst ` set zs then restore_from (body (modules s0 j)) (body (modules s1 j))
               else body (modules s1 j))"
    by blast
  show ?case
  proof (intro exI conjI)
    show "restore_linears (z # zs) s = (Inr (), s')"
      using step r(1) by simp
  next
    show "\<forall>j. body (modules s' j)
            = (if j \<in> fst ` set (z # zs) then restore_from (body (modules s0 j)) (body (modules s j))
               else body (modules s j))"
      using r(5) twice by (auto simp: s1_def z)
  qed (use r in \<open>auto simp: s1_def\<close>)
qed

lemma has_BatchNormM [simp]: "has_weight (BatchNormM bn)" "has_bias (BatchNormM bn)"
  by (simp_all add: has_weight_def has_bias_def weight_data_def bias_attr_def)

lemma remove_effect:
  assumes "snapshot ls b s0 = Inr (lp, bn0)"
    and "linears inst = ls" "linear_params inst = lp" "batch_norm_ref inst = b"
        "batch_norm_params inst = bn0" "batch_norm_eps inst = eps bn0"
    and "\<forall>j\<in>set ls. has_weight (body (modules s j)) \<and> has_bias (body (modules s j))"
    and "is_batch_norm (modules s b)"
  shows "\<exists>s'. remove inst s = (Inr (), s')
     \<and> next_handle s' = next_handle s \<and> next_obj s' = next_obj s
     \<and> (\<forall>j. rest_of (modules s' j) = rest_of (modules s j))
     \<and> (\<forall>j. body (modules s' j)
            = (if j = b then BatchNormM bn0
               else if j \<in> set ls then restore_from (body (modules s0 j)) (body (modules s j))
               else body (modules s j)))"
proof -
  from assms(1) have
    sn: "traverse (linear_param s0) ls = Inr lp" "body (modules s0 b) = BatchNormM bn0"
    by (auto simp: snapshot_def get_batch_norm_body split: sum.splits)
  note t = traverse_linear_param [OF sn(1)]
  have inv: "\<forall>(i, w, bv) \<in> set (zip ls lp). weight_data (body (modules s0 i)) = Inr w
              \<and> bias_attr (body (modules s0 i)) = Inr bv
              \<and> has_weight (body (modules s i))
              \<and> (bv \<noteq> None \<longrightarrow> has_bias (body (modules s i)))"
  proof -
    have "weight_data (body (modules s0 i)) = Inr w
              \<and> bias_attr (body (modules s0 i)) = Inr bv
              \<and> has_weight (body (modules s i))
              \<and> (bv \<noteq> None \<longrightarrow> has_bias (body (modules s i)))"
      if "(i, w, bv) \<in> set (zip ls lp)" for i w bv
    proof -
      from that obtain k where k: "k < length ls" "ls ! k = i" "lp ! k = (w, bv)"
        by (auto simp: in_set_zip)
      have "i \<in> set ls" using k by auto
      then show ?thesis using t k assms(7) by auto
    qed
    then show ?thesis by blast
  qed
  have fz: "fst ` set (zip ls lp) = set ls"
    using t by (metis map_fst_zip set_map)
  from restore_linears_effect [OF inv] obtain s2 where
    r: "restore_linears (zip ls lp) s = (Inr (), s2)" "next_handle s2 = next_handle s"
       "next_obj s2 = next_obj s" "\<forall>j. rest_of (modules s2 j) = rest_of (modules s j)"
       "\<forall>j. body (modules s2 j)
            = (if j \<in> set ls then restore_from (body (modules s0 j)) (body (modules s j))
               else body (modules s j))"
    unfolding fz by blast
  have "is_batch_norm (modules s2 b)"
  proof (cases "b \<in> set ls")
    case True
    then have "body (modules s2 b) = restore_from (BatchNormM bn0) (body (modules s b))"
      using r(5) sn(2) by simp
    then show ?thesis
      using assms(8)
      by (auto simp: is_batch_norm_def restore_from_def weight_data_def bias_attr_def
          set_bias_data_def set_weight_data_def split: body.splits)
  next
    case False
    then show ?thesis using r(5) assms(8) by (simp add: is_batch_norm_def)
  qed
  then obtain bx where "get_batch_norm s2 b = Inr bx"
    by (auto simp: is_batch_norm_def get_batch_norm_def split: body.splits)
  then have rm: "remove inst s = (Inr (), set_body b (BatchNormM bn0) s2)"
    by (simp add: remove_def assms(2-6) r(1))
  show ?thesis
  proof (intro exI conjI)
    show "remove inst s = (Inr (), set_body b (BatchNormM bn0) s2)"
      by (rule rm)
  qed (use r in auto)
qed

lemma state_eqI:
  assumes "\<forall>j. body (modules a j) = body (modules b j)"
    and "\<forall>j. rest_of (modules a j) = rest_of (modules b j)"
    and "next_handle a = next_handle b" "next_obj a = next_obj b"
  shows "a = (b::state)"
proof -
  have "modules a = modules b"
    using assms(1,2) by (auto intro!: ext module_eqI)
  then show ?thesis using assms(3,4) by simp
qed

lemma snapshot_has_weight:
  "snapshot ls b s = Inr (lp, bn) \<Longrightarrow> j \<in> set ls \<Longrightarrow> has_weight (body (modules s j))"
proof -
  assume a: "snapshot ls b s = Inr (lp, bn)" "j \<in> set ls"
  then have t: "traverse (linear_param s) ls = Inr lp"
    by (auto simp: snapshot_def split: sum.splits)
  from a(2) obtain k where "k < length ls" "ls ! k = j" by (auto simp: in_set_conv_nth)
  then show ?thesis
    using traverse_linear_param [OF t] by (auto simp: has_weight_def)
qed

lemma left_round_trip:
  assumes "register c n ls b s = (Inr inst, s1)"
  shows "remove inst s1 = (Inr (), s)"
proof -
  from assms obtain lp bn where
    h: "snapshot ls b s = Inr (lp, bn)" "merge_batch_norm ls b s = (Inr (), s1)"
       "linears inst = ls" "linear_params inst = lp" "batch_norm_ref inst = b"
       "batch_norm_params inst = bn" "batch_norm_eps inst = eps bn"
    by (auto simp: register_def split: sum.splits prod.splits)
  have b0: "body (modules s b) = BatchNormM bn"
    using h(1) by (auto simp: snapshot_def get_batch_norm_body split: sum.splits)
  from h(2) obtain scale s2 bn' where
    m: "merge_left_loop scale b ls s = (Inr (), s2)"
       "s1 = set_body b (BatchNormM (bn_identity bn')) s2"
    by (auto simp: merge_batch_norm_def split: sum.splits prod.splits)
  note e = merge_left_loop_effect [OF m(1)]
  have cur: "\<forall>j\<in>set ls. has_weight (body (modules s1 j)) \<and> has_bias (body (modules s1 j))"
    using e by (auto simp: m(2))
  have bnb: "is_batch_norm (modules s1 b)"
    by (simp add: m(2) is_batch_norm_def)
  from remove_effect [OF h(1) h(3-7) cur bnb] obtain s3 where
    r: "remove inst s1 = (Inr (), s3)" "next_handle s3 = next_handle s1"
       "next_obj s3 = next_obj s1" "\<forall>j. rest_of (modules s3 j) = rest_of (modules s1 j)"
       "\<forall>j. body (modules s3 j)
            = (if j = b then BatchNormM bn
               else if j \<in> set ls then restore_from (body (modules s j)) (body (modules s1 j))
               else body (modules s1 j))"
    by blast
  have "s3 = s"
  proof (rule state_eqI)
    show "\<forall>j. body (modules s3 j) = body (modules s j)"
    proof
      fix j
      show "body (modules s3 j) = body (modules s j)"
      proof (cases "j = b")
        case True
        then show ?thesis using r(5) b0 by simp
      next
        case False
        show ?thesis
        proof (cases "j \<in> set ls")
          case True
          have "core (body (modules s1 j)) = core (body (modules s j))"
            using e False by (simp add: m(2))
          then show ?thesis
            using r(5) False True restore_from_core snapshot_has_weight [OF h(1) True] by simp
        next
          case False
          then show ?thesis using r(5) e \<open>j \<noteq> b\<close> by (simp add: m(2))
        qed
      qed
    qed
  qed (use r e in \<open>auto simp: m(2)\<close>)
  then show ?thesis using r(1) by simp
qed

lemma modules_setattr:
  "modules (setattr i k v s) j
     = (if j = i then (modules s i)\<lparr> attrs := (attrs (modules s i))(k \<mapsto> v) \<rparr> else modules s j)"
  by (simp add: setattr_def upd_module_def)

lemma counters_setattr [simp]:
  "next_handle (setattr i k v s) = next_handle s" "next_obj (setattr i k v s) = next_obj s"
  by (simp_all add: setattr_def upd_module_def)

lemma handle_remove_modules:
  "modules (handle_remove h s) j =
     (modules s j)\<lparr> forward_pre_hooks := strip_hook j True h (forward_pre_hooks (modules s j)),
                     forward_hooks := strip_hook j False h (forward_hooks (modules s j)) \<rparr>"
  by (cases h) (auto simp: upd_module_def)

lemma handle_remove_counters [simp]:
  "next_handle (handle_remove h s) = next_handle s" "next_obj (handle_remove h s) = next_obj s"
  by (cases h; simp add: upd_module_def)+

lemma fold_handle_remove_modules:
  "modules (fold handle_remove hs s) j =
     (modules s j)\<lparr> forward_pre_hooks := fold (strip_hook j True) hs (forward_pre_hooks (modules s j)),
                     forward_hooks := fold (strip_hook j False) hs (forward_hooks (modules s j)) \<rparr>"
  by (induction hs arbitrary: s) (simp_all add: handle_remove_modules)

lemma fold_handle_remove_counters [simp]:
  "next_handle (fold handle_remove hs s) = next_handle s"
  "next_obj (fold handle_remove hs s) = next_obj s"
  by (induction hs arbitrary: s) simp_all

lemma filter_fresh:
  "\<forall>e\<in>set hs. fst e < (k::nat) \<Longrightarrow> filter (\<lambda>e. fst e \<noteq> k) (hs @ [(k, h)]) = hs"
  by (induction hs) auto

lemma filter_below:
  "\<forall>e\<in>set hs. fst e < (k::nat) \<Longrightarrow> k \<le> k' \<Longrightarrow> filter (\<lambda>e. fst e \<noteq> k') hs = hs"
  by (induction hs) auto

lemma core_conv2d_of: "core x = core y \<Longrightarrow> map_option padding (conv2d_of x) = map_option padding (conv2d_of y)"
  by (cases x; cases y)
     (auto simp: core_def conv2d_of_def dest!: arg_cong [where f = "\<lambda>l. (kind l, padding l)"])

lemma core_padded_conv: "core x = core y \<Longrightarrow> padded_conv x = padded_conv y"
  using core_conv2d_of [of x y] by (auto simp: padded_conv_def split: option.splits)

lemma merge_right_module_effect:
  assumes "is_linear (modules s l)" "merge_right_module scale shift l s = (Inr hs, s1)"
  shows "core (body (modules s1 l)) = core (body (modules s l))
     \<and> has_weight (body (modules s1 l)) \<and> has_bias (body (modules s1 l))
     \<and> (\<forall>j. j \<noteq> l \<longrightarrow> modules s1 j = modules s j)
     \<and> forward_pre_hooks (modules s1 l) = forward_pre_hooks (modules s l)
     \<and> next_obj s1 = next_obj s
     \<and> (if padded_conv (body (modules s l))
         then hs = [Handle l False (next_handle s)] \<and> next_handle s1 = Suc (next_handle s)
              \<and> (\<exists>p. attrs (modules s1 l) = (attrs (modules s l))(''canonization_params'' \<mapsto> p))
              \<and> forward_hooks (modules s1 l) = forward_hooks (modules s l) @ [(next_handle s, ConvHook)]
         else hs = [] \<and> next_handle s1 = next_handle s
              \<and> attrs (modules s1 l) = attrs (modules s l)
              \<and> forward_hooks (modules s1 l) = forward_hooks (modules s l))"
proof -
  from assms(1) obtain m where m: "body (modules s l) = LinearM m"
    by (auto simp: is_linear_def split: body.splits)
  have hw: "has_weight (LinearM m)" by (simp add: has_weight_def weight_data_def)
  show ?thesis
    using assms(2) hw
    unfolding merge_right_module_def m
    by (auto simp: Let_def padded_conv_def register_forward_hook_def modules_set_body
        modules_setattr upd_module_def conv2d_of_def
        split: sum.splits prod.splits option.splits if_splits)
qed

lemma delattr_effect:
  "attrs (modules s i) k \<noteq> None \<Longrightarrow>
     delattr i k s = (Inr (), upd_module i (\<lambda>m. m\<lparr> attrs := (attrs m)(k := None) \<rparr>) s)"
  by (auto simp: delattr_def split: option.splits)

text \<open>The effect of \<^verbatim>\<open>MergeBatchNormtoRight.remove\<close> on a state whose module \<open>l\<close> is still
  the merged linear module.\<close>

lemma remove_right_effect:
  assumes "snapshot [l] b s0 = Inr (lp, bn0)"
    and "linears inst = [l]" "linear_params inst = lp" "batch_norm_ref inst = b"
        "batch_norm_params inst = bn0" "batch_norm_eps inst = eps bn0"
    and "is_linear (modules s0 l)"
    and "core (body (modules s l)) = core (body (modules s0 l))"
    and "has_weight (body (modules s l))" "has_bias (body (modules s l))"
    and "is_batch_norm (modules s b)"
    and "padded_conv (body (modules s0 l)) \<longrightarrow> attrs (modules s l) ''canonization_params'' \<noteq> None"
  shows "\<exists>s'. remove_right inst s = (Inr (), s')
     \<and> (\<forall>j. body (modules s' j)
            = (if j = b then BatchNormM bn0 else if j = l then body (modules s0 l)
               else body (modules s j)))
     \<and> (\<forall>j. attrs (modules s' j)
            = (if j = l \<and> padded_conv (body (modules s0 l)) then (attrs (modules s j))(''canonization_params'' := None)
               else attrs (modules s j)))
     \<and> (\<forall>j. forward_hooks (modules s' j)
            = fold (strip_hook j False) (handles inst) (forward_hooks (modules s j)))
     \<and> (\<forall>j. forward_pre_hooks (modules s' j)
            = fold (strip_hook j True) (handles inst) (forward_pre_hooks (modules s j)))"
proof -
  have lb: "l \<noteq> b"
    using assms(1,7)
    by (auto simp: snapshot_def get_batch_norm_def is_linear_def split: sum.splits body.splits)
  have cur: "\<forall>j\<in>set [l]. has_weight (body (modules s j)) \<and> has_bias (body (modules s j))"
    using assms(9,10) by simp
  from remove_effect [OF assms(1) assms(2-6) cur assms(11)] obtain s2 where
    r: "remove inst s = (Inr (), s2)"
       "\<forall>j. rest_of (modules s2 j) = rest_of (modules s j)"
       "\<forall>j. body (modules s2 j)
            = (if j = b then BatchNormM bn0
               else if j \<in> set [l] then restore_from (body (modules s0 j)) (body (modules s j))
               else body (modules s j))"
    by blast
  have hw0: "has_weight (body (modules s0 l))"
    using snapshot_has_weight [OF assms(1)] by simp
  have bl: "body (modules s2 l) = body (modules s0 l)"
    using r(3) lb restore_from_core [OF assms(8) hw0] by simp
  define s3 where "s3 = fold handle_remove (handles inst) s2"
  have b3: "body (modules s3 j) = body (modules s2 j)" for j
    by (simp add: s3_def fold_handle_remove_modules)
  have a3: "attrs (modules s3 j) = attrs (modules s j)" for j
    using r(2) by (simp add: s3_def fold_handle_remove_modules rest_of_def)
  have h3: "forward_hooks (modules s3 j)
              = fold (strip_hook j False) (handles inst) (forward_hooks (modules s j))"
       "forward_pre_hooks (modules s3 j)
              = fold (strip_hook j True) (handles inst) (forward_pre_hooks (modules s j))" for j
    using r(2) by (simp_all add: s3_def fold_handle_remove_modules rest_of_def)
  have rr: "remove_right inst s = delattr_loop [l] s3"
    by (simp add: remove_right_def r(1) assms(2) s3_def)
  show ?thesis
  proof (cases "padded_conv (body (modules s0 l))")
    case True
    then have d: "delattr_loop [l] s3
                    = (Inr (), upd_module l (\<lambda>m. m\<lparr> attrs := (attrs m)(''canonization_params'' := None) \<rparr>) s3)"
      using assms(12) delattr_effect [of s3 l "''canonization_params''"] a3 [of l] b3 [of l] bl
      by (auto simp: padded_conv_def split: option.splits)
    have fin: "remove_right inst s
                 = (Inr (), upd_module l (\<lambda>m. m\<lparr> attrs := (attrs m)(''canonization_params'' := None) \<rparr>) s3)"
      using rr d by simp
    show ?thesis
    proof (intro exI conjI)
      show "remove_right inst s
              = (Inr (), upd_module l (\<lambda>m. m\<lparr> attrs := (attrs m)(''canonization_params'' := None) \<rparr>) s3)"
        by (rule fin)
    qed (use True r(3) lb bl b3 a3 h3 in \<open>auto simp: upd_module_def\<close>)
  next
    case False
    then have d: "delattr_loop [l] s3 = (Inr (), s3)"
      using b3 [of l] bl by (auto simp: padded_conv_def split: option.splits)
    have fin: "remove_right inst s = (Inr (), s3)"
      using rr d by simp
    show ?thesis
    proof (intro exI conjI)
      show "remove_right inst s = (Inr (), s3)"
        by (rule fin)
    qed (use False r(3) lb bl b3 a3 h3 in auto)
  qed
qed

lemma register_right_effect:
  assumes "is_linear (modules s l)" "register_right c n [l] b s = (Inr inst, s1)"
  shows "\<exists>lp bn0. snapshot [l] b s = Inr (lp, bn0)
     \<and> linears inst = [l] \<and> linear_params inst = lp \<and> batch_norm_ref inst = b
     \<and> batch_norm_params inst = bn0 \<and> batch_norm_eps inst = eps bn0 \<and> relu inst = None
     \<and> l \<noteq> b
     \<and> core (body (modules s1 l)) = core (body (modules s l))
     \<and> has_weight (body (modules s1 l)) \<and> has_bias (body (modules s1 l))
     \<and> is_batch_norm (modules s1 b)
     \<and> rest_of (modules s1 b) = rest_of (modules s b)
     \<and> (\<forall>j. j \<noteq> l \<longrightarrow> j \<noteq> b \<longrightarrow> modules s1 j = modules s j)
     \<and> forward_pre_hooks (modules s1 l) = forward_pre_hooks (modules s l)
     \<and> next_obj s1 = next_obj s
     \<and> (if padded_conv (body (modules s l))
         then handles inst = [Handle l False (next_handle s)] \<and> next_handle s1 = Suc (next_handle s)
              \<and> (\<exists>p. attrs (modules s1 l) = (attrs (modules s l))(''canonization_params'' \<mapsto> p))
              \<and> forward_hooks (modules s1 l) = forward_hooks (modules s l) @ [(next_handle s, ConvHook)]
         else handles inst = [] \<and> next_handle s1 = next_handle s
              \<and> attrs (modules s1 l) = attrs (modules s l)
              \<and> forward_hooks (modules s1 l) = forward_hooks (modules s l))"
proof -
  from assms(2) obtain lp bn0 hs where
    h: "snapshot [l] b s = Inr (lp, bn0)" "merge_batch_norm_right [l] b s = (Inr hs, s1)"
       "linears inst = [l]" "linear_params inst = lp" "batch_norm_ref inst = b"
       "batch_norm_params inst = bn0" "batch_norm_eps inst = eps bn0" "handles inst = hs"
       "relu inst = None"
    by (auto simp: register_right_def split: sum.splits prod.splits)
  have lb: "l \<noteq> b"
    using h(1) assms(1)
    by (auto simp: snapshot_def get_batch_norm_def is_linear_def split: sum.splits body.splits)
  from h(2) obtain scale shift s2 bn' where
    m: "merge_right_module scale shift l s = (Inr hs, s2)"
       "s1 = set_body b (BatchNormM (bn_identity bn')) s2"
    by (auto simp: merge_batch_norm_right_def split: sum.splits prod.splits)
  note e = merge_right_module_effect [OF assms(1) m(1)]
  show ?thesis
  proof (intro exI conjI)
    show "snapshot [l] b s = Inr (lp, bn0)" by (rule h(1))
    show "if padded_conv (body (modules s l))
         then handles inst = [Handle l False (next_handle s)] \<and> next_handle s1 = Suc (next_handle s)
              \<and> (\<exists>p. attrs (modules s1 l) = (attrs (modules s l))(''canonization_params'' \<mapsto> p))
              \<and> forward_hooks (modules s1 l) = forward_hooks (modules s l) @ [(next_handle s, ConvHook)]
         else handles inst = [] \<and> next_handle s1 = next_handle s
              \<and> attrs (modules s1 l) = attrs (modules s l)
              \<and> forward_hooks (modules s1 l) = forward_hooks (modules s l)"
      using e lb by (simp add: m(2) h(8) modules_set_body)
  qed (use e lb h in \<open>auto simp: m(2) modules_set_body is_batch_norm_def rest_of_def\<close>)
qed

lemma modules_eqI:
  assumes "\<forall>j. body (modules a j) = body (modules b j)"
    and "\<forall>j. attrs (modules a j) = attrs (modules b j)"
    and "\<forall>j. forward_hooks (modules a j) = forward_hooks (modules b j)"
    and "\<forall>j. forward_pre_hooks (modules a j) = forward_pre_hooks (modules b j)"
  shows "modules a = modules b"
  using assms by (auto intro!: ext module.equality)

lemma right_round_trip:
  assumes "is_linear (modules s l)"
    and "padded_conv (body (modules s l)) \<longrightarrow> attrs (modules s l) ''canonization_params'' = None"
    and "hooks_below (next_handle s) (modules s l)"
    and "register_right c n [l] b s = (Inr inst, s1)"
  shows "fst (remove_right inst s1) = Inr () \<and> modules (snd (remove_right inst s1)) = modules s"
proof -
  from register_right_effect [OF assms(1,4)] obtain lp bn0 where
    e: "snapshot [l] b s = Inr (lp, bn0)"
       "linears inst = [l]" "linear_params inst = lp" "batch_norm_ref inst = b"
       "batch_norm_params inst = bn0" "batch_norm_eps inst = eps bn0"
       "l \<noteq> b"
       "core (body (modules s1 l)) = core (body (modules s l))"
       "has_weight (body (modules s1 l))" "has_bias (body (modules s1 l))"
       "is_batch_norm (modules s1 b)"
       "rest_of (modules s1 b) = rest_of (modules s b)"
       "\<forall>j. j \<noteq> l \<longrightarrow> j \<noteq> b \<longrightarrow> modules s1 j = modules s j"
       "forward_pre_hooks (modules s1 l) = forward_pre_hooks (modules s l)"
       "if padded_conv (body (modules s l))
         then handles inst = [Handle l False (next_handle s)] \<and> next_handle s1 = Suc (next_handle s)
              \<and> (\<exists>p. attrs (modules s1 l) = (attrs (modules s l))(''canonization_params'' \<mapsto> p))
              \<and> forward_hooks (modules s1 l) = forward_hooks (modules s l) @ [(next_handle s, ConvHook)]
         else handles inst = [] \<and> next_handle s1 = next_handle s
              \<and> attrs (modules s1 l) = attrs (modules s l)
              \<and> forward_hooks (modules s1 l) = forward_hooks (modules s l)"
    by blast
  have b0: "body (modules s b) = BatchNormM bn0"
    using e(1) by (auto simp: snapshot_def get_batch_norm_body split: sum.splits)
  have pa: "padded_conv (body (modules s l)) \<longrightarrow> attrs (modules s1 l) ''canonization_params'' \<noteq> None"
    using e(15) by auto
  from remove_right_effect [OF e(1) e(2-6) assms(1) e(8,9,10,11) pa] obtain s' where
    r: "remove_right inst s1 = (Inr (), s')"
       "\<forall>j. body (modules s' j)
            = (if j = b then BatchNormM bn0 else if j = l then body (modules s l)
               else body (modules s1 j))"
       "\<forall>j. attrs (modules s' j)
            = (if j = l \<and> padded_conv (body (modules s l)) then (attrs (modules s1 j))(''canonization_params'' := None)
               else attrs (modules s1 j))"
       "\<forall>j. forward_hooks (modules s' j)
            = fold (strip_hook j False) (handles inst) (forward_hooks (modules s1 j))"
       "\<forall>j. forward_pre_hooks (modules s' j)
            = fold (strip_hook j True) (handles inst) (forward_pre_hooks (modules s1 j))"
    by blast
  have fresh: "\<forall>e\<in>set (forward_hooks (modules s l)). fst e < next_handle s"
    using assms(3) by (auto simp: hooks_below_def list_all_iff)
  have "modules s' = modules s"
  proof (rule modules_eqI)
    show "\<forall>j. body (modules s' j) = body (modules s j)"
      using r(2) b0 e(13) by auto
    show "\<forall>j. attrs (modules s' j) = attrs (modules s j)"
    proof
      fix j
      show "attrs (modules s' j) = attrs (modules s j)"
      proof (cases "j = l")
        case True
        then show ?thesis
          using r(3) e(15) assms(2) by (cases "padded_conv (body (modules s l))") auto
      next
        case False
        then show ?thesis
          using r(3) e(12,13) by (cases "j = b") (auto simp: rest_of_def)
      qed
    qed
    show "\<forall>j. forward_hooks (modules s' j) = forward_hooks (modules s j)"
    proof
      fix j
      show "forward_hooks (modules s' j) = forward_hooks (modules s j)"
      proof (cases "j = l")
        case True
        then show ?thesis
          using r(4) e(15) filter_fresh [OF fresh]
          by (cases "padded_conv (body (modules s l))") auto
      next
        case False
        then show ?thesis
          using r(4) e(12,13,15)
          by (cases "j = b"; cases "padded_conv (body (modules s l))") (auto simp: rest_of_def)
      qed
    qed
    show "\<forall>j. forward_pre_hooks (modules s' j) = forward_pre_hooks (modules s j)"
    proof
      fix j
      show "forward_pre_hooks (modules s' j) = forward_pre_hooks (modules s j)"
        using r(5) e(12,13,14,15)
        by (cases "j = b"; cases "j = l"; cases "padded_conv (body (modules s l))")
           (auto simp: rest_of_def)
    qed
  qed
  then show ?thesis using r(1) by simp
qed

lemma modules_register_forward_hook:
  "modules (snd (register_forward_hook i h s)) j
     = (if j = i then (modules s i)\<lparr> forward_hooks := forward_hooks (modules s i) @ [(next_handle s, h)] \<rparr>
        else modules s j)"
  by (simp add: register_forward_hook_def upd_module_def)

lemma modules_register_forward_pre_hook:
  "modules (snd (register_forward_pre_hook i h s)) j
     = (if j = i then (modules s i)\<lparr> forward_pre_hooks := forward_pre_hooks (modules s i) @ [(next_handle s, h)] \<rparr>
        else modules s j)"
  by (simp add: register_forward_pre_hook_def upd_module_def)

lemma thresh_round_trip:
  assumes "is_linear (modules s l)" "body (modules s r) = ReLUM"
    and "attrs (modules s r) ''canonization_params'' = None"
    and "padded_conv (body (modules s l)) \<longrightarrow> attrs (modules s l) ''canonization_params'' = None"
    and "hooks_below (next_handle s) (modules s l)" "hooks_below (next_handle s) (modules s r)"
    and "register_thresh n [l] b r s = (Inr inst, s1)"
  shows "fst (remove_thresh inst s1) = Inr () \<and> modules (snd (remove_thresh inst s1)) = modules s"
proof -
  from assms(7) obtain P inst0 sb where
    h: "register_right CThresh n [l] b (setattr r ''canonization_params'' P s) = (Inr inst0, sb)"
       "inst = inst0\<lparr> handles := handles inst0 @ [Handle r True (next_handle sb),
                                                  Handle r False (Suc (next_handle sb))],
                      relu := Some r \<rparr>"
       "s1 = snd (register_forward_hook r FwdHook (snd (register_forward_pre_hook r PreHook sb)))"
    by (auto simp: register_thresh_def Let_def register_forward_hook_def
        register_forward_pre_hook_def split: sum.splits prod.splits)
  define sa where "sa = setattr r ''canonization_params'' P s"
  have rl: "r \<noteq> l"
    using assms(1,2) by (auto simp: is_linear_def)
  have la: "is_linear (modules sa l)"
    using assms(1) rl by (simp add: sa_def modules_setattr)
  have pc: "padded_conv (body (modules sa l)) = padded_conv (body (modules s l))"
    using rl by (simp add: sa_def modules_setattr)
  from register_right_effect [OF la h(1) [folded sa_def]] obtain lp bn0 where
    e: "snapshot [l] b sa = Inr (lp, bn0)"
       "linears inst0 = [l]" "linear_params inst0 = lp" "batch_norm_ref inst0 = b"
       "batch_norm_params inst0 = bn0" "batch_norm_eps inst0 = eps bn0"
       "l \<noteq> b"
       "core (body (modules sb l)) = core (body (modules sa l))"
       "has_weight (body (modules sb l))" "has_bias (body (modules sb l))"
       "is_batch_norm (modules sb b)"
       "rest_of (modules sb b) = rest_of (modules sa b)"
       "\<forall>j. j \<noteq> l \<longrightarrow> j \<noteq> b \<longrightarrow> modules sb j = modules sa j"
       "forward_pre_hooks (modules sb l) = forward_pre_hooks (modules sa l)"
       "if padded_conv (body (modules sa l))
         then handles inst0 = [Handle l False (next_handle sa)] \<and> next_handle sb = Suc (next_handle sa)
              \<and> (\<exists>p. attrs (modules sb l) = (attrs (modules sa l))(''canonization_params'' \<mapsto> p))
              \<and> forward_hooks (modules sb l) = forward_hooks (modules sa l) @ [(next_handle sa, ConvHook)]
         else handles inst0 = [] \<and> next_handle sb = next_handle sa
              \<and> attrs (modules sb l) = attrs (modules sa l)
              \<and> forward_hooks (modules sb l) = forward_hooks (modules sa l)"
    by blast
  have b0: "body (modules sa b) = BatchNormM bn0"
    using e(1) by (auto simp: snapshot_def get_batch_norm_body split: sum.splits)
  have rb: "r \<noteq> b"
    using b0 assms(2) by (auto simp: sa_def modules_setattr split: if_splits)
  have nh: "next_handle sa = next_handle s" by (simp add: sa_def)
  have le: "next_handle s \<le> next_handle sb"
    using e(15) nh by (auto split: if_splits)
  \<comment> \<open>the state after the two hooks, component by component\<close>
  have c1: "body (modules s1 j) = body (modules sb j)"
       "attrs (modules s1 j) = attrs (modules sb j)" for j
    by (simp_all add: h(3) modules_register_forward_hook modules_register_forward_pre_hook)
  have c2: "forward_hooks (modules s1 j)
             = (if j = r then forward_hooks (modules sb r) @ [(Suc (next_handle sb), FwdHook)]
                else forward_hooks (modules sb j))"
       "forward_pre_hooks (modules s1 j)
             = (if j = r then forward_pre_hooks (modules sb r) @ [(next_handle sb, PreHook)]
                else forward_pre_hooks (modules sb j))" for j
    by (simp_all add: h(3) modules_register_forward_hook modules_register_forward_pre_hook
        register_forward_pre_hook_def upd_module_def)
  have pa: "padded_conv (body (modules sa l)) \<longrightarrow> attrs (modules s1 l) ''canonization_params'' \<noteq> None"
    using e(15) c1 by auto
  have f: "linears inst = [l]" "linear_params inst = lp" "batch_norm_ref inst = b"
       "batch_norm_params inst = bn0" "batch_norm_eps inst = eps bn0" "relu inst = Some r"
    using e(2-6) by (simp_all add: h(2))
  have bn1: "is_batch_norm (modules s1 b)"
    using e(11) c1 by (simp add: is_batch_norm_def)
  from remove_right_effect [OF e(1) f(1-5) la _ _ _ bn1 pa] e(8,9,10) c1 obtain s' where
    r: "remove_right inst s1 = (Inr (), s')"
       "\<forall>j. body (modules s' j)
            = (if j = b then BatchNormM bn0 else if j = l then body (modules sa l)
               else body (modules s1 j))"
       "\<forall>j. attrs (modules s' j)
            = (if j = l \<and> padded_conv (body (modules sa l)) then (attrs (modules s1 j))(''canonization_params'' := None)
               else attrs (modules s1 j))"
       "\<forall>j. forward_hooks (modules s' j)
            = fold (strip_hook j False) (handles inst) (forward_hooks (modules s1 j))"
       "\<forall>j. forward_pre_hooks (modules s' j)
            = fold (strip_hook j True) (handles inst) (forward_pre_hooks (modules s1 j))"
    by auto
  have ar: "attrs (modules s' r) ''canonization_params'' \<noteq> None"
    using r(3) rl rb c1 e(13) by (simp add: sa_def modules_setattr)
  define s2 where "s2 = upd_module r (\<lambda>m. m\<lparr> attrs := (attrs m)(''canonization_params'' := None) \<rparr>) s'"
  have fin: "remove_thresh inst s1 = (Inr (), s2)"
    using delattr_effect [OF ar] by (simp add: remove_thresh_def r(1) f(6) s2_def)
  have freshl: "\<forall>e\<in>set (forward_hooks (modules s l)). fst e < next_handle s"
    using assms(5) by (auto simp: hooks_below_def list_all_iff)
  have freshr: "\<forall>e\<in>set (forward_hooks (modules s r)). fst e < next_handle s"
       "\<forall>e\<in>set (forward_pre_hooks (modules s r)). fst e < next_handle s"
    using assms(6) by (auto simp: hooks_below_def list_all_iff)
  have hs: "handles inst = handles inst0 @ [Handle r True (next_handle sb),
                                             Handle r False (Suc (next_handle sb))]"
    by (simp add: h(2))
  have "modules s2 = modules s"
  proof (rule modules_eqI)
    show "\<forall>j. body (modules s2 j) = body (modules s j)"
      using r(2) b0 e(13) c1 rl rb
      by (auto simp: s2_def upd_module_def sa_def modules_setattr split: if_splits)
    show "\<forall>j. attrs (modules s2 j) = attrs (modules s j)"
    proof
      fix j
      consider "j = l" | "j = r" | "j = b" | "j \<noteq> l" "j \<noteq> r" "j \<noteq> b" by blast
      then show "attrs (modules s2 j) = attrs (modules s j)"
      proof cases
        case 1
        then show ?thesis
          using r(3) e(15) assms(4) c1 rl pc
          by (cases "padded_conv (body (modules s l))")
             (auto simp: s2_def upd_module_def sa_def modules_setattr)
      next
        case 2
        then show ?thesis
          using r(3) e(13) assms(3) c1 rl rb
          by (auto simp: s2_def upd_module_def sa_def modules_setattr)
      next
        case 3
        then show ?thesis
          using r(3) e(7,12) c1 rb
          by (auto simp: s2_def upd_module_def sa_def modules_setattr rest_of_def)
      next
        case 4
        then show ?thesis
          using r(3) e(13) c1
          by (auto simp: s2_def upd_module_def sa_def modules_setattr)
      qed
    qed
    show "\<forall>j. forward_hooks (modules s2 j) = forward_hooks (modules s j)"
    proof
      fix j
      consider "j = l" | "j = r" | "j = b" | "j \<noteq> l" "j \<noteq> r" "j \<noteq> b" by blast
      then show "forward_hooks (modules s2 j) = forward_hooks (modules s j)"
      proof cases
        case 1
        then show ?thesis
          using r(4) e(15) c2 rl pc nh filter_fresh [OF freshl]
          by (cases "padded_conv (body (modules s l))")
             (auto simp: s2_def upd_module_def sa_def modules_setattr hs)
      next
        case 2
        have "forward_hooks (modules sb r) = forward_hooks (modules s r)"
          using e(13) rl rb by (simp add: sa_def modules_setattr)
        moreover have "\<forall>e\<in>set (forward_hooks (modules s r)). fst e < Suc (next_handle sb)"
          using freshr(1) le by auto
        ultimately show ?thesis
          using 2 r(4) e(15) c2 rl filter_fresh [of "forward_hooks (modules s r)" "Suc (next_handle sb)"]
          by (cases "padded_conv (body (modules sa l))")
             (auto simp: s2_def upd_module_def hs)
      next
        case 3
        then show ?thesis
          using r(4) e(7,12,15) c2 rb
          by (cases "padded_conv (body (modules sa l))")
             (auto simp: s2_def upd_module_def sa_def modules_setattr rest_of_def hs)
      next
        case 4
        then show ?thesis
          using r(4) e(13,15) c2
          by (cases "padded_conv (body (modules sa l))")
             (auto simp: s2_def upd_module_def sa_def modules_setattr hs)
      qed
    qed
    show "\<forall>j. forward_pre_hooks (modules s2 j) = forward_pre_hooks (modules s j)"
    proof
      fix j
      consider "j = l" | "j = r" | "j = b" | "j \<noteq> l" "j \<noteq> r" "j \<noteq> b" by blast
      then show "forward_pre_hooks (modules s2 j) = forward_pre_hooks (modules s j)"
      proof cases
        case 1
        then show ?thesis
          using r(5) e(14,15) c2 rl
          by (cases "padded_conv (body (modules sa l))")
             (auto simp: s2_def upd_module_def sa_def modules_setattr hs)
      next
        case 2
        have "forward_pre_hooks (modules sb r) = forward_pre_hooks (modules s r)"
          using e(13) rl rb by (simp add: sa_def modules_setattr)
        moreover have "\<forall>e\<in>set (forward_pre_hooks (modules s r)). fst e < next_handle sb"
          using freshr(2) le by auto
        ultimately show ?thesis
          using 2 r(5) e(15) c2 rl filter_fresh [of "forward_pre_hooks (modules s r)" "next_handle sb"]
          by (cases "padded_conv (body (modules sa l))")
             (auto simp: s2_def upd_module_def hs)
      next
        case 3
        then show ?thesis
          using r(5) e(7,12,15) c2 rb
          by (cases "padded_conv (body (modules sa l))")
             (auto simp: s2_def upd_module_def sa_def modules_setattr rest_of_def hs)
      next
        case 4
        then show ?thesis
          using r(5) e(13,15) c2
          by (cases "padded_conv (body (modules sa l))")
             (auto simp: s2_def upd_module_def sa_def modules_setattr hs)
      qed
    qed
  qed
  then show ?thesis using fin by simp
qed

lemmas right_eval_defs =
  mk_state_def mk_module_def ex_bn_def ex_conv_pad_def
  register_right_def snapshot_def linear_param_def weight_data_def bias_attr_def
  get_batch_norm_def merge_batch_norm_right_def bn_scale_def bn_shift_def vec_of_def
  bvec_def bindE_def merge_right_module_def out_channels_def Let_def is_transpose_def
  set_body_def upd_module_def set_bias_data_def set_weight_data_def conv2d_of_def is_fc_def
  bn_identity_def shift_patch_def conv2d_def conv2d_sample_def extent_def rect_def
  sum_upto_def xpad_def bias_at_def setattr_def register_forward_hook_def
  register_forward_pre_hook_def empty_params_def

lemma right_pad_registers:
  "\<exists>inst s1. register_right CToRight 0 [1] 0 right_pad_state = (Inr inst, s1)"
  by (simp add: right_pad_state_def right_eval_defs)

lemma thresh_pad_registers:
  "\<exists>inst s1. register_thresh 0 [2] 0 1 thresh_pad_state = (Inr inst, s1)"
  by (simp add: thresh_pad_state_def register_thresh_def right_eval_defs)

text \<open>
  C1. \<^verbatim>\<open>register\<close> followed at once by \<^verbatim>\<open>remove\<close> restores the graph, for each
  canonizer over batch norms. For left fusion (any list of modules in the linear position,
  the batch norm itself among them or not) the whole state is as before. For right fusion
  and for the threshold rewrite, on a matched pattern (one Linear-kind module, and a ReLU for
  the threshold rewrite) whose modules do not carry \<^verbatim>\<open>canonization_params\<close> yet and whose
  hook keys are below torch's handle counter, \<^verbatim>\<open>remove\<close> ends without error and every
  module is as before: weight, bias (also where there was none), the four parameters and
  \<^verbatim>\<open>eps\<close> of the batch norm, the hooks and the attributes.
\<close>

theorem register_remove_round_trip:
  "(register c n ls b s = (Inr inst, s1) \<longrightarrow> remove inst s1 = (Inr (), s))
   \<and> (is_linear (modules s l)
        \<and> (padded_conv (body (modules s l)) \<longrightarrow> attrs (modules s l) ''canonization_params'' = None)
        \<and> hooks_below (next_handle s) (modules s l)
        \<and> register_right c n [l] b s = (Inr inst, s1)
      \<longrightarrow> fst (remove_right inst s1) = Inr ()
          \<and> modules (snd (remove_right inst s1)) = modules s)
   \<and> (is_linear (modules s l) \<and> body (modules s r) = ReLUM
        \<and> attrs (modules s r) ''canonization_params'' = None
        \<and> (padded_conv (body (modules s l)) \<longrightarrow> attrs (modules s l) ''canonization_params'' = None)
        \<and> hooks_below (next_handle s) (modules s l) \<and> hooks_below (next_handle s) (modules s r)
        \<and> register_thresh n [l] b r s = (Inr inst, s1)
      \<longrightarrow> fst (remove_thresh inst s1) = Inr ()
          \<and> modules (snd (remove_thresh inst s1)) = modules s)"
  using left_round_trip [of c n ls b s inst s1] right_round_trip [of s l c n b inst s1]
    thresh_round_trip [of s l r n b inst s1]
  by blast

theorem register_remove_round_trip_witness:
  "remove (projr (fst (register CNamed 0 [0] 1 named_state)))
          (snd (register CNamed 0 [0] 1 named_state)) = (Inr (), named_state)
   \<and> modules (snd (remove_right (projr (fst (register_right CToRight 0 [1] 0 right_pad_state)))
                   (snd (register_right CToRight 0 [1] 0 right_pad_state))))
       = modules right_pad_state
   \<and> modules (snd (remove_thresh (projr (fst (register_thresh 0 [2] 0 1 thresh_pad_state)))
                   (snd (register_thresh 0 [2] 0 1 thresh_pad_state))))
       = modules thresh_pad_state"
proof -
  have "\<exists>inst s1. register CNamed 0 [0] 1 named_state = (Inr inst, s1)"
    by (simp add: eval_defs)
  then obtain i1 t1 where 1: "register CNamed 0 [0] 1 named_state = (Inr i1, t1)"
    by blast
  obtain i2 t2 where 2: "register_right CToRight 0 [1] 0 right_pad_state = (Inr i2, t2)"
    using right_pad_registers by blast
  obtain i3 t3 where 3: "register_thresh 0 [2] 0 1 thresh_pad_state = (Inr i3, t3)"
    using thresh_pad_registers by blast
  have a: "remove i1 t1 = (Inr (), named_state)"
    using register_remove_round_trip [of CNamed 0 "[0]" 1 named_state i1 t1] 1 by blast
  have p2: "is_linear (modules right_pad_state 1)"
       "attrs (modules right_pad_state 1) ''canonization_params'' = None"
       "hooks_below (next_handle right_pad_state) (modules right_pad_state 1)"
    by (simp_all add: right_pad_state_def mk_state_def mk_module_def is_linear_def hooks_below_def)
  have b: "modules (snd (remove_right i2 t2)) = modules right_pad_state"
    using register_remove_round_trip [of CToRight 0 _ 0 right_pad_state i2 t2 1] 2 p2 by blast
  have p3: "is_linear (modules thresh_pad_state 2)" "body (modules thresh_pad_state 1) = ReLUM"
       "attrs (modules thresh_pad_state 1) ''canonization_params'' = None"
       "attrs (modules thresh_pad_state 2) ''canonization_params'' = None"
       "hooks_below (next_handle thresh_pad_state) (modules thresh_pad_state 2)"
       "hooks_below (next_handle thresh_pad_state) (modules thresh_pad_state 1)"
    by (simp_all add: thresh_pad_state_def mk_state_def mk_module_def is_linear_def hooks_below_def)
  have c: "modules (snd (remove_thresh i3 t3)) = modules thresh_pad_state"
    using register_remove_round_trip [of _ 0 _ 0 thresh_pad_state i3 t3 2 1] 3 p3 by blast
  show ?thesis
    unfolding 1 2 3 using a b c by simp
qed

end
